theory Spec2Isabelle
  imports Complex_Main
begin

section \<open>CrashGuard-S dispatch engine: a shallow embedding of driver\_app/server.py\<close>

text \<open>
  The model follows \<^verbatim>\<open>src/driver_app/server.py\<close> function by function. The three
  SQLite tables (\<^verbatim>\<open>crashes\<close>, \<^verbatim>\<open>ambulances\<close>, \<^verbatim>\<open>drivers\<close>, schema in
  \<^verbatim>\<open>init_db.py\<close>) are lists of rows; the process-wide dictionary \<^verbatim>\<open>_subscribers\<close> is
  an association list from unit id to a list of queue addresses, and the
  \<^verbatim>\<open>queue.Queue\<close> objects live in an explicit store, so that a publish can change a
  buffer without changing the registry that refers to it.

  Python floats are read as real numbers. For \<^verbatim>\<open>haversine\<close> the rounding matters: in
  exact arithmetic its local \<^verbatim>\<open>a\<close> lies between 0 and 1, but the doubles of line 65
  can exceed 1 for nearly antipodal points (at \<^verbatim>\<open>(2.5, 0.0)\<close> and
  \<^verbatim>\<open>(-2.5, 180.0)\<close> the value is \<^verbatim>\<open>1.0000000000000002\<close>, one unit in the last place above 1), and
  then \<^verbatim>\<open>math.sqrt(1 - a)\<close> raises. So the function comes twice: \<open>haversine\<close> with
  the exact \<^verbatim>\<open>a\<close>, which the routes are modelled with, and \<open>haversine_in\<close> with the
  value of \<^verbatim>\<open>a\<close> left to the arithmetic, by which the raising path of
  \<^verbatim>\<open>haversine\<close> and \<^verbatim>\<open>dispatch\<close> is followed.

  The server is started with \<^verbatim>\<open>threaded=True\<close>, so requests can overlap. A route is
  modelled twice as well: as a function that runs to completion (\<open>step\<close>,
  \<open>run\<close>: requests served one after another), and as the list of its database and
  queue statements (\<open>statements\<close>), which \<open>run_statements\<close> executes in any
  order, also interleaved with the statements of other requests.
\<close>

subsection \<open>Python values and errors\<close>

datatype py_error = ValueError

datatype 'a outcome = Raised py_error | Returned 'a

datatype 'a response = Http401 | Http200 'a

subsection \<open>Haversine (server.py, lines 60-66)\<close>

text \<open>\<^verbatim>\<open>math.radians\<close>, \<^verbatim>\<open>math.sqrt\<close> (which raises ValueError on a negative
  argument) and \<^verbatim>\<open>math.atan2\<close>, as the C library defines them on finite numbers.\<close>

definition radians :: "real \<Rightarrow> real" where
  "radians x = x * (pi / 180)"

definition py_sqrt :: "real \<Rightarrow> py_error + real" where
  "py_sqrt x = (if x < 0 then Inl ValueError else Inr (sqrt x))"

definition atan2 :: "real \<Rightarrow> real \<Rightarrow> real" where
  "atan2 y x =
     (if 0 < x then arctan (y / x)
      else if x < 0 then (if 0 \<le> y then arctan (y / x) + pi else arctan (y / x) - pi)
      else if 0 < y then pi / 2
      else if y < 0 then - (pi / 2)
      else 0)"

text \<open>The local \<^verbatim>\<open>a\<close> of \<^verbatim>\<open>haversine\<close>.\<close>

definition hav_a :: "real \<Rightarrow> real \<Rightarrow> real \<Rightarrow> real \<Rightarrow> real" where
  "hav_a lat1 lon1 lat2 lon2 =
     (let p1 = radians lat1; p2 = radians lat2;
          dp = radians (lat2 - lat1);
          dl = radians (lon2 - lon1)
      in (sin (dp / 2))\<^sup>2 + cos p1 * cos p2 * (sin (dl / 2))\<^sup>2)"

definition haversine :: "real \<Rightarrow> real \<Rightarrow> real \<Rightarrow> real \<Rightarrow> py_error + real" where
  "haversine lat1 lon1 lat2 lon2 =
     (let R = 6371;
          a = hav_a lat1 lon1 lat2 lon2
      in case py_sqrt a of
           Inl e \<Rightarrow> Inl e
         | Inr sa \<Rightarrow>
             (case py_sqrt (1 - a) of
                Inl e \<Rightarrow> Inl e
              | Inr sb \<Rightarrow> Inr (R * 2 * atan2 sa sb)))"

text \<open>Line 66 of \<^verbatim>\<open>haversine\<close> as a function of the value of \<^verbatim>\<open>a\<close>, and
  \<^verbatim>\<open>haversine\<close> over an arithmetic that gives \<^verbatim>\<open>a\<close> the value
  \<open>a_of lat1 lon1 lat2 lon2\<close> at line 65. With \<open>hav_a\<close> for \<open>a_of\<close> this is
  \<open>haversine\<close>; for the doubles of the machine \<open>a_of\<close> differs from \<open>hav_a\<close> by the
  rounding errors of lines 62 to 65.\<close>

definition haversine_of_a :: "real \<Rightarrow> py_error + real" where
  "haversine_of_a a =
     (let R = 6371
      in case py_sqrt a of
           Inl e \<Rightarrow> Inl e
         | Inr sa \<Rightarrow>
             (case py_sqrt (1 - a) of
                Inl e \<Rightarrow> Inl e
              | Inr sb \<Rightarrow> Inr (R * 2 * atan2 sa sb)))"

definition haversine_in ::
    "(real \<Rightarrow> real \<Rightarrow> real \<Rightarrow> real \<Rightarrow> real) \<Rightarrow> real \<Rightarrow> real \<Rightarrow> real \<Rightarrow> real \<Rightarrow> py_error + real" where
  "haversine_in a_of lat1 lon1 lat2 lon2 = haversine_of_a (a_of lat1 lon1 lat2 lon2)"

text \<open>The builtin \<^verbatim>\<open>min(xs, key=f)\<close>: ValueError on an empty sequence; otherwise the
  keys are computed from left to right and an element replaces the current best only
  when its key is strictly smaller, so the first of several minimal elements wins. An
  exception raised by the key function propagates.\<close>

fun min_loop :: "('a \<Rightarrow> py_error + real) \<Rightarrow> 'a \<Rightarrow> real \<Rightarrow> 'a list \<Rightarrow> py_error + 'a" where
  "min_loop key best bk [] = Inr best"
| "min_loop key best bk (x # xs) =
     (case key x of
        Inl e \<Rightarrow> Inl e
      | Inr k \<Rightarrow> if k < bk then min_loop key x k xs else min_loop key best bk xs)"

definition py_min :: "('a \<Rightarrow> py_error + real) \<Rightarrow> 'a list \<Rightarrow> py_error + 'a" where
  "py_min key xs =
     (case xs of
        [] \<Rightarrow> Inl ValueError
      | x # xs' \<Rightarrow> (case key x of Inl e \<Rightarrow> Inl e | Inr k \<Rightarrow> min_loop key x k xs'))"

text \<open>\<^verbatim>\<open>round(x, 2)\<close>: to the nearest hundredth, halves to the even neighbour.\<close>

definition round2 :: "real \<Rightarrow> real" where
  "round2 x =
     (let y = x * 100; f = \<lfloor>y\<rfloor>; r = y - of_int f
      in of_int (if r < 1 / 2 then f else if 1 / 2 < r then f + 1
                 else if even f then f else f + 1) / 100)"

subsection \<open>Tables (init\_db.py)\<close>

record crash =
  crash_id :: int
  timestamp :: string
  latitude :: real
  longitude :: real
  snapshot_path :: "string option"
  status :: string
  assigned_ambulance_id :: "string option"

record ambulance =
  amb_id :: string
  amb_lat :: real
  amb_lon :: real
  is_available :: int

record driver =
  driver_id :: int
  driver_name :: string
  badge :: string
  password :: string
  unit_id :: string
  is_on_duty :: int

subsection \<open>Events and subscriber queues (server.py, lines 31-48)\<close>

text \<open>The value of \<^verbatim>\<open>get_address\<close>: one of its two format strings.\<close>

datatype address = Near string | Highway real real

text \<open>The dictionaries passed as \<^verbatim>\<open>data\<close>, one constructor per call site. The
  \<^verbatim>\<open>snapshot_url\<close> of a mission is a function of its crash id and is not kept. A
  message is the event type with its data; the wire text
  \<^verbatim>\<open>event: <type>\ndata: <json>\n\n\<close> is a rendering of that pair.\<close>

datatype event_data =
    Mission_assigned int string real real real address string
  | Status_update int string "string option"
  | Availability_update string string int

type_synonym msg = "string \<times> event_data"

record queue =
  maxsize :: int
  items :: "msg list"

datatype queue_error = Full | Empty

text \<open>\<^verbatim>\<open>Queue.put_nowait\<close> and \<^verbatim>\<open>Queue.get\<close> with a timeout that expires; a
  \<^verbatim>\<open>maxsize\<close> of zero or less means unbounded.\<close>

definition put_nowait :: "queue \<Rightarrow> msg \<Rightarrow> queue_error + queue" where
  "put_nowait q m =
     (if 0 < maxsize q \<and> maxsize q \<le> int (length (items q)) then Inl Full
      else Inr (q\<lparr>items := items q @ [m]\<rparr>))"

definition q_get :: "queue \<Rightarrow> queue_error + (msg \<times> queue)" where
  "q_get q = (case items q of [] \<Rightarrow> Inl Empty | m # ms \<Rightarrow> Inr (m, q\<lparr>items := ms\<rparr>))"

subsection \<open>The state of the server\<close>

record sys =
  crashes :: "crash list"
  ambulances :: "ambulance list"
  drivers :: "driver list"
  subscribers :: "(string \<times> nat list) list"
  queues :: "queue list"

text \<open>What \<^verbatim>\<open>push_event\<close> and \<^verbatim>\<open>push_all\<close> do with each queue in turn,
  \<^verbatim>\<open>for q in ...: try: q.put_nowait(msg) except queue.Full: pass\<close>, over the store.
  An address is an index into the store; the registry only ever holds addresses of
  queues that were created, and an address outside the store is skipped.\<close>

fun deliver :: "queue list \<Rightarrow> msg \<Rightarrow> nat list \<Rightarrow> queue list" where
  "deliver h m [] = h"
| "deliver h m (q # qs) =
     deliver
       (if q < length h
        then (case put_nowait (h ! q) m of Inl e \<Rightarrow> h | Inr b \<Rightarrow> h[q := b])
        else h)
       m qs"

text \<open>\<^verbatim>\<open>_subscribers.get(unit_id, [])\<close>.\<close>

definition subscriptions :: "sys \<Rightarrow> string \<Rightarrow> nat list" where
  "subscriptions s u = (case map_of (subscribers s) u of None \<Rightarrow> [] | Some qs \<Rightarrow> qs)"

definition push_event :: "sys \<Rightarrow> string \<Rightarrow> string \<Rightarrow> event_data \<Rightarrow> sys" where
  "push_event s u event_type data =
     s\<lparr>queues := deliver (queues s) (event_type, data) (subscriptions s u)\<rparr>"

definition push_all :: "sys \<Rightarrow> string \<Rightarrow> event_data \<Rightarrow> sys" where
  "push_all s event_type data =
     s\<lparr>queues := deliver (queues s) (event_type, data) (concat (map snd (subscribers s)))\<rparr>"

subsection \<open>Database helpers\<close>

text \<open>\<^verbatim>\<open>UPDATE t SET ... WHERE id=?\<close> rewrites every row with that id;
  \<^verbatim>\<open>SELECT * FROM t WHERE id=?\<close> with \<^verbatim>\<open>fetchone\<close> gives the first such row.\<close>

definition update_crashes :: "(crash \<Rightarrow> crash) \<Rightarrow> int \<Rightarrow> crash list \<Rightarrow> crash list" where
  "update_crashes f cid cs = map (\<lambda>c. if crash_id c = cid then f c else c) cs"

definition update_ambulances ::
    "(ambulance \<Rightarrow> ambulance) \<Rightarrow> string \<Rightarrow> ambulance list \<Rightarrow> ambulance list" where
  "update_ambulances f u as = map (\<lambda>a. if amb_id a = u then f a else a) as"

definition update_drivers :: "(driver \<Rightarrow> driver) \<Rightarrow> int \<Rightarrow> driver list \<Rightarrow> driver list" where
  "update_drivers f did ds = map (\<lambda>d. if driver_id d = did then f d else d) ds"

definition select_crash :: "sys \<Rightarrow> int \<Rightarrow> crash option" where
  "select_crash s cid = find (\<lambda>c. crash_id c = cid) (crashes s)"

definition select_ambulance :: "sys \<Rightarrow> string \<Rightarrow> ambulance option" where
  "select_ambulance s u = find (\<lambda>a. amb_id a = u) (ambulances s)"

text \<open>\<^verbatim>\<open>get_current_driver\<close>: the session holds a driver id or nothing; an id of 0 is
  falsy and counts as nothing.\<close>

definition get_current_driver :: "sys \<Rightarrow> int option \<Rightarrow> driver option" where
  "get_current_driver s session =
     (case session of
        None \<Rightarrow> None
      | Some did \<Rightarrow> if did = 0 then None else find (\<lambda>d. driver_id d = did) (drivers s))"

subsection \<open>Dispatch (server.py, lines 69-125)\<close>

text \<open>The join of \<^verbatim>\<open>dispatch\<close>: one row per pair of an available ambulance and an
  on-duty driver of that unit. SQL leaves the order of the rows open. SQLite runs this
  query as a scan of \<^verbatim>\<open>drivers\<close> (no index on \<^verbatim>\<open>unit_id\<close>) with a lookup of each
  driver's ambulance through the primary key of \<^verbatim>\<open>ambulances\<close>, so the rows come in
  the order of the drivers' row ids, and so does the model.\<close>

definition available_units :: "sys \<Rightarrow> ambulance list" where
  "available_units s =
     [a. d \<leftarrow> drivers s, a \<leftarrow> ambulances s,
         amb_id a = unit_id d \<and> is_available a = 1 \<and> is_on_duty d = 1]"

text \<open>\<^verbatim>\<open>if exclude_unit: units = [u for u in units if u["id"] != exclude_unit]\<close>: the
  test is Python truthiness, so neither \<^verbatim>\<open>None\<close> nor the empty string filters.\<close>

definition eligible_units :: "sys \<Rightarrow> string option \<Rightarrow> ambulance list" where
  "eligible_units s exclude_unit =
     (case exclude_unit of
        None \<Rightarrow> available_units s
      | Some x \<Rightarrow>
          if x \<noteq> [] then filter (\<lambda>u. amb_id u \<noteq> x) (available_units s)
          else available_units s)"

definition landmarks :: "(real \<times> real \<times> string) list" where
  "landmarks =
     [(10.5276, 76.2144, ''Thrissur Medical College, Thrissur, Kerala''),
      (10.5167, 76.2167, ''Sakthan Thampuran Nagar, Thrissur, Kerala''),
      (9.9312, 76.2673, ''General Hospital, Ernakulam, Kerala''),
      (10.0159, 76.3419, ''Aluva Junction, Ernakulam, Kerala''),
      (10.4515, 76.1875, ''Irinjalakuda Town, Thrissur, Kerala''),
      (10.8505, 76.2711, ''Palakkad Town, Kerala''),
      (10.3528, 76.5120, ''Chalakudy, Thrissur, Kerala''),
      (9.5916, 76.5222, ''Kottayam Medical College, Kerala'')]"

definition get_address :: "real \<Rightarrow> real \<Rightarrow> py_error + address" where
  "get_address lat lon =
     (case py_min (\<lambda>l. haversine lat lon (fst l) (fst (snd l))) landmarks of
        Inl e \<Rightarrow> Inl e
      | Inr nearest \<Rightarrow>
          (case haversine lat lon (fst nearest) (fst (snd nearest)) of
             Inl e \<Rightarrow> Inl e
           | Inr dist_l \<Rightarrow> Inr (if dist_l < 5 then Near (snd (snd nearest)) else Highway lat lon)))"

text \<open>\<^verbatim>\<open>dispatch(crash_id, crash_lat, crash_lon, exclude_unit)\<close>. The extra argument
  \<^verbatim>\<open>now\<close> is the clock reading that goes into the event. An exception leaves the
  function at the point where it is raised, with the writes committed so far.\<close>

definition dispatch ::
    "sys \<Rightarrow> int \<Rightarrow> real \<Rightarrow> real \<Rightarrow> string option \<Rightarrow> string \<Rightarrow> sys \<times> string option outcome" where
  "dispatch s cid crash_lat crash_lon exclude_unit now =
     (let units = eligible_units s exclude_unit
      in if units = []
         then (s\<lparr>crashes := update_crashes (\<lambda>c. c\<lparr>status := ''no_unit_available''\<rparr>) cid (crashes s)\<rparr>,
               Returned None)
         else
           (case py_min (\<lambda>u. haversine crash_lat crash_lon (amb_lat u) (amb_lon u)) units of
              Inl e \<Rightarrow> (s, Raised e)
            | Inr nearest \<Rightarrow>
                (case haversine crash_lat crash_lon (amb_lat nearest) (amb_lon nearest) of
                   Inl e \<Rightarrow> (s, Raised e)
                 | Inr dist_km \<Rightarrow>
                     (let s1 = s\<lparr>crashes :=
                                  update_crashes
                                    (\<lambda>c. c\<lparr>assigned_ambulance_id := Some (amb_id nearest),
                                           status := ''waiting_for_driver''\<rparr>)
                                    cid (crashes s)\<rparr>
                      in case get_address crash_lat crash_lon of
                           Inl e \<Rightarrow> (s1, Raised e)
                         | Inr addr \<Rightarrow>
                             (push_event s1 (amb_id nearest) ''mission_assigned''
                                (Mission_assigned cid (amb_id nearest) crash_lat crash_lon
                                   (round2 dist_km) addr now),
                              Returned (Some (amb_id nearest)))))))"

text \<open>\<^verbatim>\<open>get_address\<close> and \<^verbatim>\<open>dispatch\<close> once more, line by line as above, with
  every call of \<^verbatim>\<open>haversine\<close> evaluated in the arithmetic \<open>a_of\<close>.\<close>

definition get_address_in ::
    "(real \<Rightarrow> real \<Rightarrow> real \<Rightarrow> real \<Rightarrow> real) \<Rightarrow> real \<Rightarrow> real \<Rightarrow> py_error + address" where
  "get_address_in a_of lat lon =
     (case py_min (\<lambda>l. haversine_in a_of lat lon (fst l) (fst (snd l))) landmarks of
        Inl e \<Rightarrow> Inl e
      | Inr nearest \<Rightarrow>
          (case haversine_in a_of lat lon (fst nearest) (fst (snd nearest)) of
             Inl e \<Rightarrow> Inl e
           | Inr dist_l \<Rightarrow> Inr (if dist_l < 5 then Near (snd (snd nearest)) else Highway lat lon)))"

definition dispatch_in ::
    "(real \<Rightarrow> real \<Rightarrow> real \<Rightarrow> real \<Rightarrow> real)
       \<Rightarrow> sys \<Rightarrow> int \<Rightarrow> real \<Rightarrow> real \<Rightarrow> string option \<Rightarrow> string \<Rightarrow> sys \<times> string option outcome" where
  "dispatch_in a_of s cid crash_lat crash_lon exclude_unit now =
     (let units = eligible_units s exclude_unit
      in if units = []
         then (s\<lparr>crashes := update_crashes (\<lambda>c. c\<lparr>status := ''no_unit_available''\<rparr>) cid (crashes s)\<rparr>,
               Returned None)
         else
           (case py_min (\<lambda>u. haversine_in a_of crash_lat crash_lon (amb_lat u) (amb_lon u)) units of
              Inl e \<Rightarrow> (s, Raised e)
            | Inr nearest \<Rightarrow>
                (case haversine_in a_of crash_lat crash_lon (amb_lat nearest) (amb_lon nearest) of
                   Inl e \<Rightarrow> (s, Raised e)
                 | Inr dist_km \<Rightarrow>
                     (let s1 = s\<lparr>crashes :=
                                  update_crashes
                                    (\<lambda>c. c\<lparr>assigned_ambulance_id := Some (amb_id nearest),
                                           status := ''waiting_for_driver''\<rparr>)
                                    cid (crashes s)\<rparr>
                      in case get_address_in a_of crash_lat crash_lon of
                           Inl e \<Rightarrow> (s1, Raised e)
                         | Inr addr \<Rightarrow>
                             (push_event s1 (amb_id nearest) ''mission_assigned''
                                (Mission_assigned cid (amb_id nearest) crash_lat crash_lon
                                   (round2 dist_km) addr now),
                              Returned (Some (amb_id nearest)))))))"

subsection \<open>Routes (server.py, lines 208-393)\<close>

text \<open>Each route takes the state, the driver id of the session cookie (if any) and the
  fields of the JSON body, and returns the new state with the response. The
  \<^verbatim>\<open>crash_id\<close> of the body is taken to be an integer; a body without one selects no
  row, as an integer that is no row's id does.\<close>

definition logout :: "sys \<Rightarrow> int option \<Rightarrow> sys \<times> unit response" where
  "logout s session =
     (case get_current_driver s session of
        None \<Rightarrow> (s, Http200 ())
      | Some d \<Rightarrow>
          (s\<lparr>drivers := update_drivers (\<lambda>r. r\<lparr>is_on_duty := 0\<rparr>) (driver_id d) (drivers s),
             ambulances := update_ambulances (\<lambda>a. a\<lparr>is_available := 0\<rparr>) (unit_id d) (ambulances s)\<rparr>,
           Http200 ()))"

definition set_availability :: "sys \<Rightarrow> int option \<Rightarrow> bool \<Rightarrow> sys \<times> int response" where
  "set_availability s session flag =
     (case get_current_driver s session of
        None \<Rightarrow> (s, Http401)
      | Some d \<Rightarrow>
          (let on_duty = (if flag then 1 else 0);
               s1 = s\<lparr>drivers := update_drivers (\<lambda>r. r\<lparr>is_on_duty := on_duty\<rparr>) (driver_id d) (drivers s),
                       ambulances :=
                         update_ambulances (\<lambda>a. a\<lparr>is_available := on_duty\<rparr>) (unit_id d) (ambulances s)\<rparr>
           in (push_all s1 ''availability_update''
                 (Availability_update (unit_id d) (driver_name d) on_duty),
               Http200 on_duty)))"

text \<open>\<^verbatim>\<open>sse_stream\<close> creates a queue of capacity 30 and appends it to the list of the
  driver's unit (\<^verbatim>\<open>setdefault(unit_id, []).append(q)\<close>); the response streams from
  that queue.\<close>

fun setdefault_append :: "(string \<times> nat list) list \<Rightarrow> string \<Rightarrow> nat \<Rightarrow> (string \<times> nat list) list" where
  "setdefault_append [] u q = [(u, [q])]"
| "setdefault_append ((k, qs) # r) u q =
     (if k = u then (k, qs @ [q]) # r else (k, qs) # setdefault_append r u q)"

definition sse_stream :: "sys \<Rightarrow> int option \<Rightarrow> sys \<times> nat response" where
  "sse_stream s session =
     (case get_current_driver s session of
        None \<Rightarrow> (s, Http401)
      | Some d \<Rightarrow>
          (let q = length (queues s)
           in (s\<lparr>queues := queues s @ [\<lparr>maxsize = 30, items = []\<rparr>],
                 subscribers := setdefault_append (subscribers s) (unit_id d) q\<rparr>,
               Http200 q)))"

text \<open>One round of the loop of \<^verbatim>\<open>generate\<close>, after the first chunk
  (\<^verbatim>\<open>connected\<close>, which does not pass through the queue): the oldest message of the
  queue, or a heartbeat when the queue stayed empty for the whole timeout.\<close>

datatype chunk = Heartbeat | Message msg

definition generate_next :: "sys \<Rightarrow> nat \<Rightarrow> sys \<times> chunk" where
  "generate_next s q =
     (if q < length (queues s)
      then (case q_get (queues s ! q) of
              Inl e \<Rightarrow> (s, Heartbeat)
            | Inr (m, b) \<Rightarrow> (s\<lparr>queues := (queues s)[q := b]\<rparr>, Message m))
      else (s, Heartbeat))"

text \<open>The local function \<^verbatim>\<open>cleanup\<close> of \<^verbatim>\<open>sse_stream\<close>:
  \<^verbatim>\<open>_subscribers[unit_id].remove(q)\<close>, every exception swallowed. The source defines it
  and never calls or registers it.\<close>

definition cleanup :: "sys \<Rightarrow> string \<Rightarrow> nat \<Rightarrow> sys" where
  "cleanup s u q =
     s\<lparr>subscribers := map (\<lambda>(k, qs). if k = u then (k, remove1 q qs) else (k, qs)) (subscribers s)\<rparr>"

definition accept_mission :: "sys \<Rightarrow> int option \<Rightarrow> int \<Rightarrow> sys \<times> string response" where
  "accept_mission s session cid =
     (case get_current_driver s session of
        None \<Rightarrow> (s, Http401)
      | Some d \<Rightarrow>
          (let s1 = s\<lparr>crashes := update_crashes (\<lambda>c. c\<lparr>status := ''en_route''\<rparr>) cid (crashes s),
                       ambulances :=
                         update_ambulances (\<lambda>a. a\<lparr>is_available := 0\<rparr>) (unit_id d) (ambulances s)\<rparr>
           in (push_all s1 ''status_update'' (Status_update cid ''en_route'' (Some (unit_id d))),
               Http200 ''en_route'')))"

definition decline_mission ::
    "sys \<Rightarrow> int option \<Rightarrow> int \<Rightarrow> string \<Rightarrow> sys \<times> string option response outcome" where
  "decline_mission s session cid now =
     (case get_current_driver s session of
        None \<Rightarrow> (s, Returned Http401)
      | Some d \<Rightarrow>
          (let row = select_crash s cid;
               s1 = s\<lparr>crashes :=
                        update_crashes (\<lambda>c. c\<lparr>status := ''new'', assigned_ambulance_id := None\<rparr>)
                          cid (crashes s)\<rparr>
           in case row of
                None \<Rightarrow> (s1, Returned (Http200 None))
              | Some r \<Rightarrow>
                  (case dispatch s1 cid (latitude r) (longitude r) (Some (unit_id d)) now of
                     (s2, Raised e) \<Rightarrow> (s2, Raised e)
                   | (s2, Returned reassigned_to) \<Rightarrow> (s2, Returned (Http200 reassigned_to)))))"

definition arrived :: "sys \<Rightarrow> int option \<Rightarrow> int \<Rightarrow> sys \<times> string response" where
  "arrived s session cid =
     (case get_current_driver s session of
        None \<Rightarrow> (s, Http401)
      | Some d \<Rightarrow>
          (let s1 = s\<lparr>crashes := update_crashes (\<lambda>c. c\<lparr>status := ''resolved''\<rparr>) cid (crashes s),
                       ambulances :=
                         update_ambulances (\<lambda>a. a\<lparr>is_available := 1\<rparr>) (unit_id d) (ambulances s)\<rparr>
           in (push_all s1 ''status_update'' (Status_update cid ''resolved'' None),
               Http200 ''resolved'')))"

text \<open>\<^verbatim>\<open>simulate_crash\<close>. Its inputs from the environment are arguments: the two random
  offsets, the two clock readings, and what \<^verbatim>\<open>capture_snapshot\<close> did (the path it
  stored in the row when a video frame was read, nothing when it fell back to the
  placeholder image). The new row id is one more than the largest id, as AUTOINCREMENT
  gives when no row was ever deleted.\<close>

definition next_rowid :: "crash list \<Rightarrow> int" where
  "next_rowid cs = fold max (map crash_id cs) 0 + 1"

definition capture_snapshot :: "sys \<Rightarrow> int \<Rightarrow> string option \<Rightarrow> sys" where
  "capture_snapshot s cid snap =
     (case snap of
        None \<Rightarrow> s
      | Some p \<Rightarrow> s\<lparr>crashes := update_crashes (\<lambda>c. c\<lparr>snapshot_path := Some p\<rparr>) cid (crashes s)\<rparr>)"

definition simulate_crash ::
    "sys \<Rightarrow> real \<Rightarrow> real \<Rightarrow> string \<Rightarrow> string option \<Rightarrow> string
       \<Rightarrow> sys \<times> (int \<times> string option \<times> real \<times> real) response outcome" where
  "simulate_crash s dlat dlon ts snap now =
     (let crash_lat = 10.5276 + dlat;
          crash_lon = 76.2144 + dlon;
          cid = next_rowid (crashes s);
          s1 = s\<lparr>crashes := crashes s @
                  [\<lparr>crash_id = cid, timestamp = ts, latitude = crash_lat, longitude = crash_lon,
                    snapshot_path = None, status = ''new'', assigned_ambulance_id = None\<rparr>]\<rparr>;
          s2 = capture_snapshot s1 cid snap
      in case dispatch s2 cid crash_lat crash_lon None now of
           (s3, Raised e) \<Rightarrow> (s3, Raised e)
         | (s3, Returned assigned) \<Rightarrow>
             (s3, Returned (Http200 (cid, assigned, crash_lat, crash_lon))))"

subsection \<open>Requests and runs\<close>

datatype request =
    Simulate_crash real real string "string option" string
  | Accept_mission "int option" int
  | Decline_mission "int option" int string
  | Arrived "int option" int
  | Set_availability "int option" bool
  | Logout "int option"
  | Sse_stream "int option"
  | Generate_next nat

fun step :: "sys \<Rightarrow> request \<Rightarrow> sys" where
  "step s (Simulate_crash dlat dlon ts snap now) = fst (simulate_crash s dlat dlon ts snap now)"
| "step s (Accept_mission session cid) = fst (accept_mission s session cid)"
| "step s (Decline_mission session cid now) = fst (decline_mission s session cid now)"
| "step s (Arrived session cid) = fst (arrived s session cid)"
| "step s (Set_availability session flag) = fst (set_availability s session flag)"
| "step s (Logout session) = fst (logout s session)"
| "step s (Sse_stream session) = fst (sse_stream s session)"
| "step s (Generate_next q) = fst (generate_next s q)"

text \<open>Requests served one after another, each to its end before the next begins.\<close>

definition run :: "sys \<Rightarrow> request list \<Rightarrow> sys" where
  "run s rs = foldl step s rs"

subsection \<open>Statements and interleavings\<close>

text \<open>The writes of the routes, one constructor per statement of the source:
  the \<^verbatim>\<open>INSERT\<close> of \<^verbatim>\<open>simulate_crash\<close> (line 380), the \<^verbatim>\<open>UPDATE\<close> of
  \<^verbatim>\<open>capture_snapshot\<close> (line 149), the two of \<^verbatim>\<open>dispatch\<close> (lines 81 and 89), those
  of \<^verbatim>\<open>accept_mission\<close> (line 323), \<^verbatim>\<open>decline_mission\<close> (line 339) and
  \<^verbatim>\<open>arrived\<close> (line 355) on \<^verbatim>\<open>crashes\<close>, the updates of \<^verbatim>\<open>ambulances\<close> and
  \<^verbatim>\<open>drivers\<close>, the two publishing functions, the registration of a new queue
  (lines 263 to 265) and one round of \<^verbatim>\<open>generate\<close>. The arguments are the values
  the thread has bound to the parameters, whatever it read to compute them.\<close>

datatype statement =
    Insert_crash string real real
  | Update_snapshot_path int string
  | Update_no_unit_available int
  | Update_assigned int string
  | Update_en_route int
  | Update_reopened int
  | Update_resolved int
  | Update_is_available string int
  | Update_is_on_duty int int
  | Push_event string string event_data
  | Push_all string event_data
  | Append_queue string
  | Queue_get nat

fun execute :: "sys \<Rightarrow> statement \<Rightarrow> sys" where
  "execute s (Insert_crash ts lat lon) =
     s\<lparr>crashes := crashes s @
        [\<lparr>crash_id = next_rowid (crashes s), timestamp = ts, latitude = lat, longitude = lon,
          snapshot_path = None, status = ''new'', assigned_ambulance_id = None\<rparr>]\<rparr>"
| "execute s (Update_snapshot_path cid p) =
     s\<lparr>crashes := update_crashes (\<lambda>c. c\<lparr>snapshot_path := Some p\<rparr>) cid (crashes s)\<rparr>"
| "execute s (Update_no_unit_available cid) =
     s\<lparr>crashes := update_crashes (\<lambda>c. c\<lparr>status := ''no_unit_available''\<rparr>) cid (crashes s)\<rparr>"
| "execute s (Update_assigned cid u) =
     s\<lparr>crashes :=
         update_crashes
           (\<lambda>c. c\<lparr>assigned_ambulance_id := Some u, status := ''waiting_for_driver''\<rparr>)
           cid (crashes s)\<rparr>"
| "execute s (Update_en_route cid) =
     s\<lparr>crashes := update_crashes (\<lambda>c. c\<lparr>status := ''en_route''\<rparr>) cid (crashes s)\<rparr>"
| "execute s (Update_reopened cid) =
     s\<lparr>crashes :=
         update_crashes (\<lambda>c. c\<lparr>status := ''new'', assigned_ambulance_id := None\<rparr>)
           cid (crashes s)\<rparr>"
| "execute s (Update_resolved cid) =
     s\<lparr>crashes := update_crashes (\<lambda>c. c\<lparr>status := ''resolved''\<rparr>) cid (crashes s)\<rparr>"
| "execute s (Update_is_available u v) =
     s\<lparr>ambulances := update_ambulances (\<lambda>a. a\<lparr>is_available := v\<rparr>) u (ambulances s)\<rparr>"
| "execute s (Update_is_on_duty did v) =
     s\<lparr>drivers := update_drivers (\<lambda>r. r\<lparr>is_on_duty := v\<rparr>) did (drivers s)\<rparr>"
| "execute s (Push_event u event_type data) = push_event s u event_type data"
| "execute s (Push_all event_type data) = push_all s event_type data"
| "execute s (Append_queue u) =
     s\<lparr>queues := queues s @ [\<lparr>maxsize = 30, items = []\<rparr>],
       subscribers := setdefault_append (subscribers s) u (length (queues s))\<rparr>"
| "execute s (Queue_get q) = fst (generate_next s q)"

text \<open>Statements executed one after another. The list is any sequence of statements:
  those of one request in their order, or those of several requests merged in the
  order in which the threads happen to reach them.\<close>

definition run_statements :: "sys \<Rightarrow> statement list \<Rightarrow> sys" where
  "run_statements s stmts = foldl execute s stmts"

text \<open>The statements that a call of \<^verbatim>\<open>dispatch\<close> and a request execute when they run
  alone from the state \<open>s\<close>, in the order of the source.\<close>

definition dispatch_statements ::
    "sys \<Rightarrow> int \<Rightarrow> real \<Rightarrow> real \<Rightarrow> string option \<Rightarrow> string \<Rightarrow> statement list" where
  "dispatch_statements s cid crash_lat crash_lon exclude_unit now =
     (let units = eligible_units s exclude_unit
      in if units = [] then [Update_no_unit_available cid]
         else
           (case py_min (\<lambda>u. haversine crash_lat crash_lon (amb_lat u) (amb_lon u)) units of
              Inl e \<Rightarrow> []
            | Inr nearest \<Rightarrow>
                (case haversine crash_lat crash_lon (amb_lat nearest) (amb_lon nearest) of
                   Inl e \<Rightarrow> []
                 | Inr dist_km \<Rightarrow>
                     Update_assigned cid (amb_id nearest) #
                       (case get_address crash_lat crash_lon of
                          Inl e \<Rightarrow> []
                        | Inr addr \<Rightarrow>
                            [Push_event (amb_id nearest) ''mission_assigned''
                               (Mission_assigned cid (amb_id nearest) crash_lat crash_lon
                                  (round2 dist_km) addr now)]))))"

fun statements :: "sys \<Rightarrow> request \<Rightarrow> statement list" where
  "statements s (Simulate_crash dlat dlon ts snap now) =
     (let crash_lat = 10.5276 + dlat;
          crash_lon = 76.2144 + dlon;
          cid = next_rowid (crashes s);
          writes = Insert_crash ts crash_lat crash_lon #
                     (case snap of None \<Rightarrow> [] | Some p \<Rightarrow> [Update_snapshot_path cid p])
      in writes @ dispatch_statements (run_statements s writes) cid crash_lat crash_lon None now)"
| "statements s (Accept_mission session cid) =
     (case get_current_driver s session of
        None \<Rightarrow> []
      | Some d \<Rightarrow>
          [Update_en_route cid, Update_is_available (unit_id d) 0,
           Push_all ''status_update'' (Status_update cid ''en_route'' (Some (unit_id d)))])"
| "statements s (Decline_mission session cid now) =
     (case get_current_driver s session of
        None \<Rightarrow> []
      | Some d \<Rightarrow>
          Update_reopened cid #
            (case select_crash s cid of
               None \<Rightarrow> []
             | Some r \<Rightarrow>
                 dispatch_statements (execute s (Update_reopened cid)) cid
                   (latitude r) (longitude r) (Some (unit_id d)) now))"
| "statements s (Arrived session cid) =
     (case get_current_driver s session of
        None \<Rightarrow> []
      | Some d \<Rightarrow>
          [Update_resolved cid, Update_is_available (unit_id d) 1,
           Push_all ''status_update'' (Status_update cid ''resolved'' None)])"
| "statements s (Set_availability session flag) =
     (case get_current_driver s session of
        None \<Rightarrow> []
      | Some d \<Rightarrow>
          (let on_duty = (if flag then 1 else 0)
           in [Update_is_on_duty (driver_id d) on_duty, Update_is_available (unit_id d) on_duty,
               Push_all ''availability_update''
                 (Availability_update (unit_id d) (driver_name d) on_duty)]))"
| "statements s (Logout session) =
     (case get_current_driver s session of
        None \<Rightarrow> []
      | Some d \<Rightarrow> [Update_is_on_duty (driver_id d) 0, Update_is_available (unit_id d) 0])"
| "statements s (Sse_stream session) =
     (case get_current_driver s session of None \<Rightarrow> [] | Some d \<Rightarrow> [Append_queue (unit_id d)])"
| "statements s (Generate_next q) = [Queue_get q]"

fun run_statements_of :: "sys \<Rightarrow> request list \<Rightarrow> statement list" where
  "run_statements_of s [] = []"
| "run_statements_of s (r # rs) = statements s r @ run_statements_of (step s r) rs"

subsection \<open>Invariants\<close>

text \<open>The registry is a dictionary (each unit id once), no queue is registered twice,
  and every registered address is a queue of the store.\<close>

definition fanout_inv :: "sys \<Rightarrow> bool" where
  "fanout_inv s \<longleftrightarrow>
     distinct (map fst (subscribers s))
     \<and> distinct (concat (map snd (subscribers s)))
     \<and> (\<forall>q \<in> set (concat (map snd (subscribers s))). q < length (queues s))"

text \<open>Every driver row names a unit: the seeded rows do, and no route writes
  \<^verbatim>\<open>unit_id\<close>.\<close>

definition units_named :: "sys \<Rightarrow> bool" where
  "units_named s \<longleftrightarrow> list_all (\<lambda>d. unit_id d \<noteq> []) (drivers s)"

text \<open>What the routes keep true of every row of \<^verbatim>\<open>crashes\<close> when they are served one
  after another: a unit is recorded only
  while the status is \<^verbatim>\<open>waiting_for_driver\<close>, \<^verbatim>\<open>en_route\<close> or \<^verbatim>\<open>resolved\<close>, and
  a unit is recorded whenever the status is \<^verbatim>\<open>waiting_for_driver\<close>.\<close>

definition crash_ok :: "crash \<Rightarrow> bool" where
  "crash_ok c \<longleftrightarrow>
     (assigned_ambulance_id c \<noteq> None \<longrightarrow>
        status c = ''waiting_for_driver'' \<or> status c = ''en_route'' \<or> status c = ''resolved'')
     \<and> (status c = ''waiting_for_driver'' \<longrightarrow> assigned_ambulance_id c \<noteq> None)"

definition db_inv :: "sys \<Rightarrow> bool" where
  "db_inv s \<longleftrightarrow> list_all crash_ok (crashes s)"

text \<open>What every single statement keeps true of every row, so that it holds however
  the statements of concurrent requests are interleaved: a row in status \<^verbatim>\<open>new\<close> has
  no unit and a row in status \<^verbatim>\<open>waiting_for_driver\<close> has one.\<close>

definition pairing_ok :: "crash \<Rightarrow> bool" where
  "pairing_ok c \<longleftrightarrow>
     (status c = ''new'' \<longrightarrow> assigned_ambulance_id c = None)
     \<and> (status c = ''waiting_for_driver'' \<longrightarrow> assigned_ambulance_id c \<noteq> None)"

definition pairing_inv :: "sys \<Rightarrow> bool" where
  "pairing_inv s \<longleftrightarrow> list_all pairing_ok (crashes s)"

text \<open>The pairing as the specification words it: a unit is recorded exactly when the
  status is \<^verbatim>\<open>waiting_for_driver\<close> or \<^verbatim>\<open>en_route\<close>.\<close>

definition assigned_iff_active :: "crash \<Rightarrow> bool" where
  "assigned_iff_active c \<longleftrightarrow>
     (assigned_ambulance_id c \<noteq> None) =
     (status c = ''waiting_for_driver'' \<or> status c = ''en_route'')"

subsection \<open>Example states\<close>

text \<open>The database as \<^verbatim>\<open>init_db.py\<close> seeds it (five units, five drivers, all off duty,
  no incident), with no subscriber; and the same with one incident just reported.\<close>

definition init_state :: sys where
  "init_state =
     \<lparr>crashes = [],
      ambulances =
        [\<lparr>amb_id = ''Unit-01'', amb_lat = 10.5276, amb_lon = 76.2144, is_available = 1\<rparr>,
         \<lparr>amb_id = ''Unit-02'', amb_lat = 10.5167, amb_lon = 76.2167, is_available = 1\<rparr>,
         \<lparr>amb_id = ''Unit-03'', amb_lat = 9.9312, amb_lon = 76.2673, is_available = 1\<rparr>,
         \<lparr>amb_id = ''Unit-04'', amb_lat = 10.0159, amb_lon = 76.3419, is_available = 1\<rparr>,
         \<lparr>amb_id = ''Unit-05'', amb_lat = 10.4515, amb_lon = 76.1875, is_available = 1\<rparr>],
      drivers =
        [\<lparr>driver_id = 1, driver_name = ''Arjun Nair'', badge = ''DRV-01'',
          password =
            ''52d7f204438e0cc7c005e99ee08a6d6516f01815f18f6aef976d3dbd9c949719'',
           unit_id = ''Unit-01'', is_on_duty = 0\<rparr>,
         \<lparr>driver_id = 2, driver_name = ''Priya Menon'', badge = ''DRV-02'',
          password =
            ''b53cd0cef1db5e75e2bf54c100f2514d8ac93c9c207a0614484c4d20854ebfb7'',
           unit_id = ''Unit-02'', is_on_duty = 0\<rparr>,
         \<lparr>driver_id = 3, driver_name = ''Rahul Krishnan'', badge = ''DRV-03'',
          password =
            ''f34569c9fe8484b7593b965b5f39942a6fe1f87f1cc35152133f5ad4482a25b3'',
           unit_id = ''Unit-03'', is_on_duty = 0\<rparr>,
         \<lparr>driver_id = 4, driver_name = ''Anitha Suresh'', badge = ''DRV-04'',
          password =
            ''db633e1c0727e9deeb64cc8e6b55e019c075d61d9b44cda174cfedb0cd460a9e'',
           unit_id = ''Unit-04'', is_on_duty = 0\<rparr>,
         \<lparr>driver_id = 5, driver_name = ''Vishnu Kumar'', badge = ''DRV-05'',
          password =
            ''b98573d7915152c81aa25a5788fbf5ea1fa1e7809b50bdd6e3abd46dfc933da9'',
           unit_id = ''Unit-05'', is_on_duty = 0\<rparr>],
      subscribers = [],
      queues = []\<rparr>"


text \<open>States reached from the seeded database: driver 1 is on duty and an incident at
  the place of Unit-01 is waiting for that unit; the same incident accepted and
  resolved; and the first incident accepted with a second one waiting for Unit-02.\<close>

definition assigned_state :: sys where
  "assigned_state =
     run init_state
       [Set_availability (Some 1) True,
        Simulate_crash 0 0 ''2024-01-01T10:00:00'' None ''2024-01-01T10:00:01'']"

definition resolved_state :: sys where
  "resolved_state = run assigned_state [Accept_mission (Some 1) 1, Arrived (Some 1) 1]"

definition two_incidents :: sys where
  "two_incidents =
     run assigned_state
       [Accept_mission (Some 1) 1,
        Set_availability (Some 2) True,
        Simulate_crash 0 0 ''2024-01-01T11:00:00'' None ''2024-01-01T11:00:01'']"

text \<open>A state reached from the seeded database with three streams: driver 1 opens a
  stream and never reads it while 30 availability updates are broadcast (driver 3 stays
  off duty), then opens a second stream; one more update is broadcast, and driver 2
  opens a stream. The first queue of Unit-01 is full.\<close>

definition saturated_state :: sys where
  "saturated_state =
     run init_state
       (Sse_stream (Some 1) # replicate 30 (Set_availability (Some 3) False)
          @ [Sse_stream (Some 1), Set_availability (Some 3) False, Sse_stream (Some 2)])"

text \<open>An interleaving of two declines of the incident of \<open>assigned_state\<close>. Driver 1
  (on duty, Unit-01) and driver 2 (logged in, off duty, Unit-02) both decline incident
  1. Driver 1's request reads the row and commits its clearing \<^verbatim>\<open>UPDATE\<close> (lines 338
  to 340); then driver 2's request runs from beginning to end; then driver 1's request
  goes on with its call of \<^verbatim>\<open>dispatch\<close> (line 344) with the coordinates it read.\<close>

definition interleaved_declines :: sys where
  "interleaved_declines =
     fst (dispatch
            (fst (decline_mission (execute assigned_state (Update_reopened 1)) (Some 2) 1
                    ''2024-01-01T10:05:01''))
            1 10.5276 76.2144 (Some ''Unit-01'') ''2024-01-01T10:05:02'')"


text \<open>An arithmetic whose \<^verbatim>\<open>a\<close> is the exact value plus one unit in the last place of
  1, the error that the doubles make at the two points above.\<close>

definition a_rounded_up :: "real \<Rightarrow> real \<Rightarrow> real \<Rightarrow> real \<Rightarrow> real" where
  "a_rounded_up lat1 lon1 lat2 lon2 = hav_a lat1 lon1 lat2 lon2 + 1 / 2 ^ 52"

section \<open>Properties\<close>

subsection \<open>Haversine\<close>

text \<open>In exact arithmetic the argument of both square roots lies between 0 and 1, so
  neither call of \<^verbatim>\<open>math.sqrt\<close> raises.\<close>

lemma sin_half_sq: "(sin (x / 2))\<^sup>2 = (1 - cos x) / (2::real)"
  using cos_double_sin [of "x / 2"] by simp

lemma hav_a_expand:
  "hav_a lat1 lon1 lat2 lon2 =
     (1 - (1 - (sin (radians (lon2 - lon1) / 2))\<^sup>2) * cos (radians lat2 - radians lat1)
        + (sin (radians (lon2 - lon1) / 2))\<^sup>2 * cos (radians lat1 + radians lat2)) / 2"
proof -
  have dp: "radians (lat2 - lat1) = radians lat2 - radians lat1"
    by (simp add: radians_def left_diff_distrib)
  have cc: "cos (radians lat1) * cos (radians lat2)
      = (cos (radians lat2 - radians lat1) + cos (radians lat1 + radians lat2)) / 2"
    using cos_times_cos [of "radians lat1" "radians lat2"]
          cos_minus [of "radians lat2 - radians lat1"] by simp
  have "(1 - cos (radians lat2 - radians lat1)) / 2
        + (cos (radians lat2 - radians lat1) + cos (radians lat1 + radians lat2)) / 2
          * (sin (radians (lon2 - lon1) / 2))\<^sup>2
      = (1 - (1 - (sin (radians (lon2 - lon1) / 2))\<^sup>2) * cos (radians lat2 - radians lat1)
        + (sin (radians (lon2 - lon1) / 2))\<^sup>2 * cos (radians lat1 + radians lat2)) / 2"
    by (simp add: field_simps)
  then show ?thesis
    unfolding hav_a_def Let_def dp sin_half_sq [of "radians lat2 - radians lat1"] cc .
qed

lemma hav_a_nonneg: "0 \<le> hav_a lat1 lon1 lat2 lon2"
proof -
  define s where "s = (sin (radians (lon2 - lon1) / 2))\<^sup>2"
  define c where "c = cos (radians lat2 - radians lat1)"
  define d where "d = cos (radians lat1 + radians lat2)"
  have s: "0 \<le> s" "s \<le> 1" by (simp_all add: s_def abs_square_le_1)
  have c: "c \<le> 1" by (simp add: c_def)
  have d: "-1 \<le> d" by (simp add: d_def)
  have 1: "(1 - s) * c \<le> 1 - s" using s c by (simp add: mult_left_le)
  have 2: "- s \<le> s * d" using s d
    by (metis mult_left_mono mult_minus1_right)
  have "hav_a lat1 lon1 lat2 lon2 = (1 - (1 - s) * c + s * d) / 2"
    by (simp add: hav_a_expand s_def c_def d_def)
  with 1 2 show ?thesis by simp
qed

lemma hav_a_le_1: "hav_a lat1 lon1 lat2 lon2 \<le> 1"
proof -
  define s where "s = (sin (radians (lon2 - lon1) / 2))\<^sup>2"
  define c where "c = cos (radians lat2 - radians lat1)"
  define d where "d = cos (radians lat1 + radians lat2)"
  have s: "0 \<le> s" "s \<le> 1" by (simp_all add: s_def abs_square_le_1)
  have c: "-1 \<le> c" by (simp add: c_def)
  have d: "d \<le> 1" by (simp add: d_def)
  have 1: "- (1 - s) \<le> (1 - s) * c" using s c
    by (metis diff_ge_0_iff_ge mult_left_mono mult_minus1_right)
  have 2: "s * d \<le> s" using s d by (simp add: mult_left_le)
  have "hav_a lat1 lon1 lat2 lon2 = (1 - (1 - s) * c + s * d) / 2"
    by (simp add: hav_a_expand s_def c_def d_def)
  with 1 2 show ?thesis by simp
qed

lemma haversine_eq:
  "haversine lat1 lon1 lat2 lon2 =
     Inr (6371 * 2 * atan2 (sqrt (hav_a lat1 lon1 lat2 lon2)) (sqrt (1 - hav_a lat1 lon1 lat2 lon2)))"
  using hav_a_nonneg [of lat1 lon1 lat2 lon2] hav_a_le_1 [of lat1 lon1 lat2 lon2]
  by (simp add: haversine_def py_sqrt_def Let_def)

lemma atan2_nonneg: "0 \<le> y \<Longrightarrow> 0 \<le> x \<Longrightarrow> 0 \<le> atan2 y x"
  by (simp add: atan2_def)

lemma hav_a_sym: "hav_a lat2 lon2 lat1 lon1 = hav_a lat1 lon1 lat2 lon2"
proof -
  have a: "radians (lat1 - lat2) / 2 = - (radians (lat2 - lat1) / 2)"
    by (simp add: radians_def field_simps)
  have b: "radians (lon1 - lon2) / 2 = - (radians (lon2 - lon1) / 2)"
    by (simp add: radians_def field_simps)
  show ?thesis
    unfolding hav_a_def Let_def a b by (simp add: mult.commute)
qed

lemma hav_a_same: "hav_a lat lon lat lon = 0"
  by (simp add: hav_a_def radians_def)

lemma haversine_same: "haversine lat lon lat lon = Inr 0"
  by (simp add: haversine_eq hav_a_same atan2_def)

lemma haversine_nonneg: "haversine lat1 lon1 lat2 lon2 = Inr d \<Longrightarrow> 0 \<le> d"
  using hav_a_nonneg [of lat1 lon1 lat2 lon2] hav_a_le_1 [of lat1 lon1 lat2 lon2]
  by (auto simp: haversine_eq intro!: atan2_nonneg mult_nonneg_nonneg)

text \<open>In exact arithmetic the distance is symmetric, it is 0 from a point to itself,
  and \<open>haversine\<close> always returns a value, which is non-negative.\<close>

lemma haversine_exact:
  "haversine lat1 lon1 lat2 lon2 = haversine lat2 lon2 lat1 lon1
   \<and> haversine lat1 lon1 lat1 lon1 = Inr 0
   \<and> (\<exists>d. haversine lat1 lon1 lat2 lon2 = Inr d \<and> 0 \<le> d)"
  using haversine_nonneg [of lat1 lon1 lat2 lon2]
  by (simp add: haversine_same haversine_eq hav_a_sym [of lat1 lon1 lat2 lon2])

text \<open>Over another arithmetic: \<open>haversine_in\<close> with the exact \<^verbatim>\<open>a\<close> is
  \<open>haversine\<close>, and line 66 raises exactly when the value of \<^verbatim>\<open>a\<close> is negative or
  greater than 1. At antipodal points the exact value is 1, the upper end.\<close>

lemma haversine_in_exact: "haversine_in hav_a = haversine"
  by (intro ext) (simp add: haversine_in_def haversine_of_a_def haversine_def Let_def)

lemma haversine_of_a_raises: "haversine_of_a a = Inl ValueError \<longleftrightarrow> a < 0 \<or> 1 < a"
  by (auto simp: haversine_of_a_def py_sqrt_def Let_def)

lemma hav_a_antipode: "hav_a lat lon (- lat) (lon + 180) = 1"
proof -
  have dp: "radians (- lat - lat) / 2 = - radians lat"
    by (simp add: radians_def)
  have dl: "radians (lon + 180 - lon) / 2 = pi / 2"
    by (simp add: radians_def)
  have p2: "radians (- lat) = - radians lat"
    by (simp add: radians_def)
  show ?thesis
    unfolding hav_a_def Let_def dp dl p2
    by (simp add: power2_eq_square [symmetric] sin_cos_squared_add)
qed

lemma hav_a_example:
  "hav_a (5 / 2) 0 (- (5 / 2)) 180 = 1"
  "hav_a (- (5 / 2)) 180 (5 / 2) 0 = 1"
proof -
  show 1: "hav_a (5 / 2) 0 (- (5 / 2)) 180 = 1"
    using hav_a_antipode [of "5 / 2" 0] by simp
  show "hav_a (- (5 / 2)) 180 (5 / 2) 0 = 1"
    using 1 by (simp only: hav_a_sym [of "5 / 2" 0 "- (5 / 2)" 180])
qed

text \<open>
  C9 (a defect of the code). The distance is not defined for all pairs of points:
  \<^verbatim>\<open>haversine\<close> raises ValueError as soon as the rounding of line 65 leaves
  \<^verbatim>\<open>a\<close> above 1. It does so at the value \<^verbatim>\<open>1.0000000000000002\<close> that the doubles
  give at \<^verbatim>\<open>(2.5, 0.0)\<close> and \<^verbatim>\<open>(-2.5, 180.0)\<close>, and, in an arithmetic that is one
  unit in the last place above the exact value, at these two points in either order,
  where symmetry and a non-negative result are claimed.
\<close>

theorem haversine_raises_above_one:
  "haversine_of_a (1 + 1 / 2 ^ 52) = Inl ValueError
   \<and> haversine_in a_rounded_up 2.5 0 (- 2.5) 180 = Inl ValueError
   \<and> haversine_in a_rounded_up (- 2.5) 180 2.5 0 = Inl ValueError"
  by (simp add: haversine_in_def a_rounded_up_def haversine_of_a_raises hav_a_example)

subsection \<open>min with a key\<close>

lemma min_loop_first_min:
  assumes key: "\<And>x. key x = Inr (k x)"
  shows "\<exists>u. min_loop key best (k best) xs = Inr u
           \<and> ((u = best \<and> (\<forall>v\<in>set xs. k best \<le> k v))
              \<or> (\<exists>pre post. xs = pre @ u # post \<and> k u < k best
                    \<and> (\<forall>v\<in>set pre. k u < k v) \<and> (\<forall>v\<in>set post. k u \<le> k v)))"
proof (induction xs arbitrary: best)
  case Nil
  then show ?case by simp
next
  case (Cons x xs)
  show ?case
  proof (cases "k x < k best")
    case True
    from Cons.IH [of x] obtain u where u: "min_loop key x (k x) xs = Inr u"
      and alt: "(u = x \<and> (\<forall>v\<in>set xs. k x \<le> k v))
              \<or> (\<exists>pre post. xs = pre @ u # post \<and> k u < k x
                    \<and> (\<forall>v\<in>set pre. k u < k v) \<and> (\<forall>v\<in>set post. k u \<le> k v))"
      by blast
    have res: "min_loop key best (k best) (x # xs) = Inr u"
      using True u by (simp add: key)
    from alt show ?thesis
    proof
      assume a: "u = x \<and> (\<forall>v\<in>set xs. k x \<le> k v)"
      then have "x # xs = [] @ u # xs \<and> k u < k best
          \<and> (\<forall>v\<in>set []. k u < k v) \<and> (\<forall>v\<in>set xs. k u \<le> k v)"
        using True by simp
      with res show ?thesis by blast
    next
      assume "\<exists>pre post. xs = pre @ u # post \<and> k u < k x
                    \<and> (\<forall>v\<in>set pre. k u < k v) \<and> (\<forall>v\<in>set post. k u \<le> k v)"
      then obtain pre post where p: "xs = pre @ u # post" "k u < k x"
          "\<forall>v\<in>set pre. k u < k v" "\<forall>v\<in>set post. k u \<le> k v"
        by blast
      then have "x # xs = (x # pre) @ u # post \<and> k u < k best
          \<and> (\<forall>v\<in>set (x # pre). k u < k v) \<and> (\<forall>v\<in>set post. k u \<le> k v)"
        using True by auto
      with res show ?thesis by blast
    qed
  next
    case False
    from Cons.IH [of best] obtain u where u: "min_loop key best (k best) xs = Inr u"
      and alt: "(u = best \<and> (\<forall>v\<in>set xs. k best \<le> k v))
              \<or> (\<exists>pre post. xs = pre @ u # post \<and> k u < k best
                    \<and> (\<forall>v\<in>set pre. k u < k v) \<and> (\<forall>v\<in>set post. k u \<le> k v))"
      by blast
    have res: "min_loop key best (k best) (x # xs) = Inr u"
      using False u by (simp add: key)
    from alt show ?thesis
    proof
      assume "u = best \<and> (\<forall>v\<in>set xs. k best \<le> k v)"
      then have "u = best \<and> (\<forall>v\<in>set (x # xs). k best \<le> k v)"
        using False by simp
      with res show ?thesis by blast
    next
      assume "\<exists>pre post. xs = pre @ u # post \<and> k u < k best
                    \<and> (\<forall>v\<in>set pre. k u < k v) \<and> (\<forall>v\<in>set post. k u \<le> k v)"
      then obtain pre post where p: "xs = pre @ u # post" "k u < k best"
          "\<forall>v\<in>set pre. k u < k v" "\<forall>v\<in>set post. k u \<le> k v"
        by blast
      then have "x # xs = (x # pre) @ u # post \<and> k u < k best
          \<and> (\<forall>v\<in>set (x # pre). k u < k v) \<and> (\<forall>v\<in>set post. k u \<le> k v)"
        using False by auto
      with res show ?thesis by blast
    qed
  qed
qed

lemma py_min_first_min:
  assumes key: "\<And>x. key x = Inr (k x)" and ne: "xs \<noteq> []"
  shows "\<exists>u pre post. py_min key xs = Inr u \<and> xs = pre @ u # post
           \<and> (\<forall>v\<in>set pre. k u < k v) \<and> (\<forall>v\<in>set post. k u \<le> k v)"
proof -
  from ne obtain x xs' where xs: "xs = x # xs'" by (cases xs) auto
  from min_loop_first_min [of key k x xs', OF key]
  obtain u where u: "min_loop key x (k x) xs' = Inr u"
    and alt: "(u = x \<and> (\<forall>v\<in>set xs'. k x \<le> k v))
              \<or> (\<exists>pre post. xs' = pre @ u # post \<and> k u < k x
                    \<and> (\<forall>v\<in>set pre. k u < k v) \<and> (\<forall>v\<in>set post. k u \<le> k v))"
    by blast
  have res: "py_min key xs = Inr u"
    using u by (simp add: py_min_def xs key)
  from alt show ?thesis
  proof
    assume "u = x \<and> (\<forall>v\<in>set xs'. k x \<le> k v)"
    then have "xs = [] @ u # xs' \<and> (\<forall>v\<in>set []. k u < k v) \<and> (\<forall>v\<in>set xs'. k u \<le> k v)"
      by (simp add: xs)
    with res show ?thesis by blast
  next
    assume "\<exists>pre post. xs' = pre @ u # post \<and> k u < k x
                    \<and> (\<forall>v\<in>set pre. k u < k v) \<and> (\<forall>v\<in>set post. k u \<le> k v)"
    then obtain pre post where p: "xs' = pre @ u # post" "k u < k x"
        "\<forall>v\<in>set pre. k u < k v" "\<forall>v\<in>set post. k u \<le> k v"
      by blast
    then have "xs = (x # pre) @ u # post
          \<and> (\<forall>v\<in>set (x # pre). k u < k v) \<and> (\<forall>v\<in>set post. k u \<le> k v)"
      by (auto simp: xs)
    with res show ?thesis by blast
  qed
qed

lemma get_address_total: "\<exists>a. get_address lat lon = Inr a"
proof -
  define k where "k = (\<lambda>l :: real \<times> real \<times> string.
      6371 * 2 * atan2 (sqrt (hav_a lat lon (fst l) (fst (snd l))))
                       (sqrt (1 - hav_a lat lon (fst l) (fst (snd l)))))"
  have "\<exists>u pre post.
          py_min (\<lambda>l. haversine lat lon (fst l) (fst (snd l))) landmarks = Inr u
        \<and> landmarks = pre @ u # post
        \<and> (\<forall>v\<in>set pre. k u < k v) \<and> (\<forall>v\<in>set post. k u \<le> k v)"
  proof (rule py_min_first_min)
    show "\<And>x. haversine lat lon (fst x) (fst (snd x)) = Inr (k x)"
      unfolding k_def by (rule haversine_eq)
    show "landmarks \<noteq> []" by (simp add: landmarks_def)
  qed
  then obtain u where "py_min (\<lambda>l. haversine lat lon (fst l) (fst (snd l))) landmarks = Inr u"
    by blast
  then show ?thesis
    by (simp add: get_address_def haversine_eq)
qed

lemma dispatch_none:
  "eligible_units s ex = [] \<Longrightarrow>
   dispatch s cid lat lon ex now =
     (s\<lparr>crashes := update_crashes (\<lambda>c. c\<lparr>status := ''no_unit_available''\<rparr>) cid (crashes s)\<rparr>,
      Returned None)"
  by (simp add: dispatch_def)

lemma dispatch_some:
  assumes "eligible_units s ex \<noteq> []"
  shows "\<exists>nearest pre post d addr.
      eligible_units s ex = pre @ nearest # post
    \<and> py_min (\<lambda>u. haversine lat lon (amb_lat u) (amb_lon u)) (eligible_units s ex) = Inr nearest
    \<and> haversine lat lon (amb_lat nearest) (amb_lon nearest) = Inr d
    \<and> (\<forall>v\<in>set pre. \<exists>dv. haversine lat lon (amb_lat v) (amb_lon v) = Inr dv \<and> d < dv)
    \<and> (\<forall>v\<in>set post. \<exists>dv. haversine lat lon (amb_lat v) (amb_lon v) = Inr dv \<and> d \<le> dv)
    \<and> dispatch s cid lat lon ex now =
        (push_event
           (s\<lparr>crashes :=
                update_crashes
                  (\<lambda>c. c\<lparr>assigned_ambulance_id := Some (amb_id nearest),
                         status := ''waiting_for_driver''\<rparr>)
                  cid (crashes s)\<rparr>)
           (amb_id nearest) ''mission_assigned''
           (Mission_assigned cid (amb_id nearest) lat lon (round2 d) addr now),
         Returned (Some (amb_id nearest)))"
proof -
  define k where "k = (\<lambda>u :: ambulance.
      6371 * 2 * atan2 (sqrt (hav_a lat lon (amb_lat u) (amb_lon u)))
                       (sqrt (1 - hav_a lat lon (amb_lat u) (amb_lon u))))"
  have key: "\<And>u. haversine lat lon (amb_lat u) (amb_lon u) = Inr (k u)"
    unfolding k_def by (rule haversine_eq)
  have "\<exists>u pre post.
          py_min (\<lambda>u. haversine lat lon (amb_lat u) (amb_lon u)) (eligible_units s ex) = Inr u
        \<and> eligible_units s ex = pre @ u # post
        \<and> (\<forall>v\<in>set pre. k u < k v) \<and> (\<forall>v\<in>set post. k u \<le> k v)"
    using key assms by (rule py_min_first_min)
  then obtain nearest pre post where
      m: "py_min (\<lambda>u. haversine lat lon (amb_lat u) (amb_lon u)) (eligible_units s ex) = Inr nearest"
    and sp: "eligible_units s ex = pre @ nearest # post"
    and lt: "\<forall>v\<in>set pre. k nearest < k v"
    and le: "\<forall>v\<in>set post. k nearest \<le> k v"
    by blast
  obtain addr where addr: "get_address lat lon = Inr addr"
    using get_address_total by blast
  have "dispatch s cid lat lon ex now =
        (push_event
           (s\<lparr>crashes :=
                update_crashes
                  (\<lambda>c. c\<lparr>assigned_ambulance_id := Some (amb_id nearest),
                         status := ''waiting_for_driver''\<rparr>)
                  cid (crashes s)\<rparr>)
           (amb_id nearest) ''mission_assigned''
           (Mission_assigned cid (amb_id nearest) lat lon (round2 (k nearest)) addr now),
         Returned (Some (amb_id nearest)))"
    using assms m by (simp add: dispatch_def key addr)
  with sp m lt le key show ?thesis by blast
qed

text \<open>Over another arithmetic: with the exact \<^verbatim>\<open>a\<close>, \<open>dispatch_in\<close> is
  \<open>dispatch\<close>; and \<^verbatim>\<open>min\<close> raises when the key function raises on an element.\<close>

lemma get_address_in_exact: "get_address_in hav_a = get_address"
  unfolding get_address_in_def get_address_def haversine_in_exact by (rule refl)

lemma dispatch_in_exact:
  "dispatch_in hav_a s cid crash_lat crash_lon exclude_unit now
     = dispatch s cid crash_lat crash_lon exclude_unit now"
  unfolding dispatch_in_def dispatch_def haversine_in_exact get_address_in_exact by (rule refl)



subsection \<open>Event fanout\<close>

lemma length_deliver [simp]: "length (deliver h m qs) = length h"
  by (induction qs arbitrary: h) (auto simp: put_nowait_def)

lemma deliver_other: "q \<notin> set qs \<Longrightarrow> deliver h m qs ! q = h ! q"
  by (induction qs arbitrary: h) (auto simp: put_nowait_def)

lemma deliver_member:
  "distinct qs \<Longrightarrow> q \<in> set qs \<Longrightarrow> q < length h \<Longrightarrow>
   deliver h m qs ! q = (case put_nowait (h ! q) m of Inl e \<Rightarrow> h ! q | Inr b \<Rightarrow> b)"
proof (induction qs arbitrary: h)
  case Nil
  then show ?case by simp
next
  case (Cons a qs)
  show ?case
  proof (cases "a = q")
    case True
    with Cons.prems have "q \<notin> set qs" by simp
    then show ?thesis using True Cons.prems(3)
      by (simp add: deliver_other split: sum.splits)
  next
    case False
    with Cons.prems have "distinct qs" "q \<in> set qs" by simp_all
    then show ?thesis using False Cons.IH Cons.prems(3)
      by (simp split: sum.splits)
  qed
qed

lemma subscriptions_cases:
  "subscriptions s u = [] \<or> (u, subscriptions s u) \<in> set (subscribers s)"
  by (auto simp: subscriptions_def split: option.splits dest: map_of_SomeD)

lemma subscriptions_subset:
  "set (subscriptions s u) \<subseteq> set (concat (map snd (subscribers s)))"
proof
  fix q assume q: "q \<in> set (subscriptions s u)"
  then have "(u, subscriptions s u) \<in> set (subscribers s)"
    using subscriptions_cases [of s u] by auto
  with q show "q \<in> set (concat (map snd (subscribers s)))"
    by force
qed

lemma distinct_concat_elem: "distinct (concat xss) \<Longrightarrow> xs \<in> set xss \<Longrightarrow> distinct xs"
  by (induction xss) auto

lemma subscriptions_distinct:
  assumes "fanout_inv s"
  shows "distinct (subscriptions s u)"
proof (cases "subscriptions s u = []")
  case True
  then show ?thesis by simp
next
  case False
  then have "(u, subscriptions s u) \<in> set (subscribers s)"
    using subscriptions_cases [of s u] by auto
  then have "subscriptions s u \<in> set (map snd (subscribers s))"
    by force
  moreover have "distinct (concat (map snd (subscribers s)))"
    using assms by (simp add: fanout_inv_def)
  ultimately show ?thesis by (rule distinct_concat_elem [rotated])
qed

lemma subscriptions_bound:
  "fanout_inv s \<Longrightarrow> q \<in> set (subscriptions s u) \<Longrightarrow> q < length (queues s)"
  using subscriptions_subset [of s u] by (auto simp: fanout_inv_def)

subsection \<open>What publishing leaves alone\<close>

lemma push_event_fields [simp]:
  "crashes (push_event s u e d) = crashes s"
  "ambulances (push_event s u e d) = ambulances s"
  "drivers (push_event s u e d) = drivers s"
  "subscribers (push_event s u e d) = subscribers s"
  "length (queues (push_event s u e d)) = length (queues s)"
  by (simp_all add: push_event_def)

lemma push_all_fields [simp]:
  "crashes (push_all s e d) = crashes s"
  "ambulances (push_all s e d) = ambulances s"
  "drivers (push_all s e d) = drivers s"
  "subscribers (push_all s e d) = subscribers s"
  "length (queues (push_all s e d)) = length (queues s)"
  by (simp_all add: push_all_def)

subsection \<open>Rows after an update\<close>

lemma find_update_crashes:
  assumes "\<And>c. crash_id (f c) = crash_id c"
  shows "find (\<lambda>c. crash_id c = cid) (update_crashes f cid cs)
           = map_option f (find (\<lambda>c. crash_id c = cid) cs)"
  by (induction cs) (simp_all add: update_crashes_def assms)

lemma find_update_ambulances:
  assumes "\<And>a. amb_id (f a) = amb_id a"
  shows "find (\<lambda>a. amb_id a = u) (update_ambulances f u as)
           = map_option f (find (\<lambda>a. amb_id a = u) as)"
  by (induction as) (simp_all add: update_ambulances_def assms)

lemma set_update_crashes:
  "c' \<in> set (update_crashes f cid cs) \<Longrightarrow>
   (c' \<in> set cs \<and> crash_id c' \<noteq> cid) \<or> (\<exists>c\<in>set cs. crash_id c = cid \<and> c' = f c)"
  by (auto simp: update_crashes_def split: if_splits)

lemma find_Some_mem: "find P xs = Some x \<Longrightarrow> x \<in> set xs \<and> P x"
  by (induction xs) (auto split: if_splits)

subsection \<open>What dispatch leaves alone\<close>

lemma dispatch_fields [simp]:
  "ambulances (fst (dispatch s cid lat lon ex now)) = ambulances s"
  "drivers (fst (dispatch s cid lat lon ex now)) = drivers s"
  "subscribers (fst (dispatch s cid lat lon ex now)) = subscribers s"
  "length (queues (fst (dispatch s cid lat lon ex now))) = length (queues s)"
proof -
  show "ambulances (fst (dispatch s cid lat lon ex now)) = ambulances s"
    using dispatch_none [of s ex cid lat lon now] dispatch_some [of s ex lat lon cid now]
    by (cases "eligible_units s ex = []") auto
  show "drivers (fst (dispatch s cid lat lon ex now)) = drivers s"
    using dispatch_none [of s ex cid lat lon now] dispatch_some [of s ex lat lon cid now]
    by (cases "eligible_units s ex = []") auto
  show "subscribers (fst (dispatch s cid lat lon ex now)) = subscribers s"
    using dispatch_none [of s ex cid lat lon now] dispatch_some [of s ex lat lon cid now]
    by (cases "eligible_units s ex = []") auto
  show "length (queues (fst (dispatch s cid lat lon ex now))) = length (queues s)"
    using dispatch_none [of s ex cid lat lon now] dispatch_some [of s ex lat lon cid now]
    by (cases "eligible_units s ex = []") auto
qed

lemma dispatch_returns: "\<exists>r. snd (dispatch s cid lat lon ex now) = Returned r"
  using dispatch_none [of s ex cid lat lon now] dispatch_some [of s ex lat lon cid now]
  by (cases "eligible_units s ex = []") auto

lemma dispatch_crashes:
  "crashes (fst (dispatch s cid lat lon ex now)) =
     (if eligible_units s ex = []
      then update_crashes (\<lambda>c. c\<lparr>status := ''no_unit_available''\<rparr>) cid (crashes s)
      else update_crashes
             (\<lambda>c. c\<lparr>assigned_ambulance_id :=
                      Some (amb_id (projr (py_min (\<lambda>u. haversine lat lon (amb_lat u) (amb_lon u))
                                            (eligible_units s ex)))),
                    status := ''waiting_for_driver''\<rparr>)
             cid (crashes s))"
proof (cases "eligible_units s ex = []")
  case True
  then show ?thesis by (simp add: dispatch_none)
next
  case False
  from dispatch_some [OF False, of lat lon cid now] obtain nearest d addr where
      "py_min (\<lambda>u. haversine lat lon (amb_lat u) (amb_lon u)) (eligible_units s ex) = Inr nearest"
      "dispatch s cid lat lon ex now =
        (push_event
           (s\<lparr>crashes :=
                update_crashes
                  (\<lambda>c. c\<lparr>assigned_ambulance_id := Some (amb_id nearest),
                         status := ''waiting_for_driver''\<rparr>)
                  cid (crashes s)\<rparr>)
           (amb_id nearest) ''mission_assigned''
           (Mission_assigned cid (amb_id nearest) lat lon (round2 d) addr now),
         Returned (Some (amb_id nearest)))"
    by blast
  with False show ?thesis by simp
qed

lemma dispatch_result:
  "snd (dispatch s cid lat lon ex now) =
     (if eligible_units s ex = [] then Returned None
      else Returned (Some (amb_id (projr (py_min (\<lambda>u. haversine lat lon (amb_lat u) (amb_lon u))
                                            (eligible_units s ex))))))"
proof (cases "eligible_units s ex = []")
  case True
  then show ?thesis by (simp add: dispatch_none)
next
  case False
  from dispatch_some [OF False, of lat lon cid now] obtain nearest d addr where
      "py_min (\<lambda>u. haversine lat lon (amb_lat u) (amb_lon u)) (eligible_units s ex) = Inr nearest"
      "dispatch s cid lat lon ex now =
        (push_event
           (s\<lparr>crashes :=
                update_crashes
                  (\<lambda>c. c\<lparr>assigned_ambulance_id := Some (amb_id nearest),
                         status := ''waiting_for_driver''\<rparr>)
                  cid (crashes s)\<rparr>)
           (amb_id nearest) ''mission_assigned''
           (Mission_assigned cid (amb_id nearest) lat lon (round2 d) addr now),
         Returned (Some (amb_id nearest)))"
    by blast
  with False show ?thesis by simp
qed

subsection \<open>What each route does to the tables and the registry\<close>

lemma fst_case_outcome:
  "fst (case p of (s2, Raised e) \<Rightarrow> (s2, Raised e) | (s2, Returned r) \<Rightarrow> (s2, Returned (g r))) = fst p"
  by (simp split: prod.splits outcome.splits)

lemma accept_mission_fields:
  "crashes (fst (accept_mission s session cid)) =
     (case get_current_driver s session of
        None \<Rightarrow> crashes s
      | Some d \<Rightarrow> update_crashes (\<lambda>c. c\<lparr>status := ''en_route''\<rparr>) cid (crashes s))"
  "ambulances (fst (accept_mission s session cid)) =
     (case get_current_driver s session of
        None \<Rightarrow> ambulances s
      | Some d \<Rightarrow> update_ambulances (\<lambda>a. a\<lparr>is_available := 0\<rparr>) (unit_id d) (ambulances s))"
  "drivers (fst (accept_mission s session cid)) = drivers s"
  "subscribers (fst (accept_mission s session cid)) = subscribers s"
  "length (queues (fst (accept_mission s session cid))) = length (queues s)"
  by (simp_all add: accept_mission_def Let_def split: option.splits)

lemma arrived_fields:
  "crashes (fst (arrived s session cid)) =
     (case get_current_driver s session of
        None \<Rightarrow> crashes s
      | Some d \<Rightarrow> update_crashes (\<lambda>c. c\<lparr>status := ''resolved''\<rparr>) cid (crashes s))"
  "ambulances (fst (arrived s session cid)) =
     (case get_current_driver s session of
        None \<Rightarrow> ambulances s
      | Some d \<Rightarrow> update_ambulances (\<lambda>a. a\<lparr>is_available := 1\<rparr>) (unit_id d) (ambulances s))"
  "drivers (fst (arrived s session cid)) = drivers s"
  "subscribers (fst (arrived s session cid)) = subscribers s"
  "length (queues (fst (arrived s session cid))) = length (queues s)"
  by (simp_all add: arrived_def Let_def split: option.splits)

lemma set_availability_fields:
  "crashes (fst (set_availability s session flag)) = crashes s"
  "subscribers (fst (set_availability s session flag)) = subscribers s"
  "length (queues (fst (set_availability s session flag))) = length (queues s)"
  by (simp_all add: set_availability_def Let_def split: option.splits)

lemma logout_fields:
  "crashes (fst (logout s session)) = crashes s"
  "subscribers (fst (logout s session)) = subscribers s"
  "queues (fst (logout s session)) = queues s"
  by (simp_all add: logout_def split: option.splits)

lemma sse_stream_fields:
  "crashes (fst (sse_stream s session)) = crashes s"
  "ambulances (fst (sse_stream s session)) = ambulances s"
  "drivers (fst (sse_stream s session)) = drivers s"
  by (simp_all add: sse_stream_def Let_def split: option.splits)

lemma generate_next_fields:
  "crashes (fst (generate_next s q)) = crashes s"
  "ambulances (fst (generate_next s q)) = ambulances s"
  "drivers (fst (generate_next s q)) = drivers s"
  "subscribers (fst (generate_next s q)) = subscribers s"
  "length (queues (fst (generate_next s q))) = length (queues s)"
  by (simp_all add: generate_next_def split: sum.splits prod.splits)

lemma decline_mission_fields:
  "crashes (fst (decline_mission s session cid now)) =
     (case get_current_driver s session of
        None \<Rightarrow> crashes s
      | Some d \<Rightarrow>
          (case select_crash s cid of
             None \<Rightarrow>
               update_crashes (\<lambda>c. c\<lparr>status := ''new'', assigned_ambulance_id := None\<rparr>) cid (crashes s)
           | Some r \<Rightarrow>
               crashes (fst (dispatch
                 (s\<lparr>crashes :=
                      update_crashes (\<lambda>c. c\<lparr>status := ''new'', assigned_ambulance_id := None\<rparr>)
                        cid (crashes s)\<rparr>)
                 cid (latitude r) (longitude r) (Some (unit_id d)) now))))"
  "ambulances (fst (decline_mission s session cid now)) = ambulances s"
  "drivers (fst (decline_mission s session cid now)) = drivers s"
  "subscribers (fst (decline_mission s session cid now)) = subscribers s"
  "length (queues (fst (decline_mission s session cid now))) = length (queues s)"
  by (simp_all add: decline_mission_def Let_def fst_case_outcome split: option.splits)

lemma simulate_crash_fields:
  "crashes (fst (simulate_crash s dlat dlon ts snap now)) =
     crashes (fst (dispatch
       (capture_snapshot
          (s\<lparr>crashes := crashes s @
               [\<lparr>crash_id = next_rowid (crashes s), timestamp = ts,
                 latitude = 10.5276 + dlat, longitude = 76.2144 + dlon,
                 snapshot_path = None, status = ''new'', assigned_ambulance_id = None\<rparr>]\<rparr>)
          (next_rowid (crashes s)) snap)
       (next_rowid (crashes s)) (10.5276 + dlat) (76.2144 + dlon) None now))"
  "ambulances (fst (simulate_crash s dlat dlon ts snap now)) = ambulances s"
  "drivers (fst (simulate_crash s dlat dlon ts snap now)) = drivers s"
  "subscribers (fst (simulate_crash s dlat dlon ts snap now)) = subscribers s"
  "length (queues (fst (simulate_crash s dlat dlon ts snap now))) = length (queues s)"
  by (simp_all add: simulate_crash_def Let_def fst_case_outcome capture_snapshot_def
      split: option.splits)

subsection \<open>Status and assigned unit when requests are served one after another\<close>

lemma list_all_update_crashes:
  assumes "list_all P cs" and "\<And>c. c \<in> set cs \<Longrightarrow> crash_id c = cid \<Longrightarrow> P (f c)"
  shows "list_all P (update_crashes f cid cs)"
  using assms by (auto simp: update_crashes_def list_all_iff)

lemma fold_max_ge: "(a::int) \<le> fold max xs a \<and> (\<forall>x\<in>set xs. x \<le> fold max xs a)"
proof (induction xs arbitrary: a)
  case Nil
  then show ?case by simp
next
  case (Cons x xs)
  from Cons.IH [of "max x a"] show ?case by auto
qed

lemma next_rowid_fresh: "c \<in> set cs \<Longrightarrow> crash_id c < next_rowid cs"
  using fold_max_ge [of 0 "map crash_id cs"] by (fastforce simp: next_rowid_def)

lemma dispatch_db_inv:
  assumes "db_inv s"
    and "\<And>c. c \<in> set (crashes s) \<Longrightarrow> crash_id c = cid \<Longrightarrow> assigned_ambulance_id c = None"
  shows "db_inv (fst (dispatch s cid lat lon ex now))"
proof (cases "eligible_units s ex = []")
  case True
  have "list_all crash_ok (update_crashes (\<lambda>c. c\<lparr>status := ''no_unit_available''\<rparr>) cid (crashes s))"
  proof (rule list_all_update_crashes)
    show "list_all crash_ok (crashes s)" using assms(1) by (simp add: db_inv_def)
    fix c assume "c \<in> set (crashes s)" "crash_id c = cid"
    then show "crash_ok (c\<lparr>status := ''no_unit_available''\<rparr>)"
      using assms(2) by (simp add: crash_ok_def)
  qed
  with True show ?thesis by (simp add: db_inv_def dispatch_crashes)
next
  case False
  have "list_all crash_ok (update_crashes
          (\<lambda>c. c\<lparr>assigned_ambulance_id := Some u, status := ''waiting_for_driver''\<rparr>)
          cid (crashes s))" for u
  proof (rule list_all_update_crashes)
    show "list_all crash_ok (crashes s)" using assms(1) by (simp add: db_inv_def)
    fix c :: crash
    show "crash_ok (c\<lparr>assigned_ambulance_id := Some u, status := ''waiting_for_driver''\<rparr>)"
      by (simp add: crash_ok_def)
  qed
  with False show ?thesis by (simp add: db_inv_def dispatch_crashes)
qed

lemma update_status_ok:
  assumes "list_all crash_ok cs" and "st = ''en_route'' \<or> st = ''resolved''"
  shows "list_all crash_ok (update_crashes (\<lambda>c. c\<lparr>status := st\<rparr>) cid cs)"
  using assms(1)
proof (rule list_all_update_crashes)
  fix c :: crash
  show "crash_ok (c\<lparr>status := st\<rparr>)"
    using assms(2) by (auto simp: crash_ok_def)
qed

lemma accept_mission_db_inv: "db_inv s \<Longrightarrow> db_inv (fst (accept_mission s session cid))"
  by (cases "get_current_driver s session")
     (simp_all add: db_inv_def accept_mission_fields update_status_ok)

lemma arrived_db_inv: "db_inv s \<Longrightarrow> db_inv (fst (arrived s session cid))"
  by (cases "get_current_driver s session")
     (simp_all add: db_inv_def arrived_fields update_status_ok)

lemma reopen_ok:
  assumes "list_all crash_ok cs"
  shows "list_all crash_ok
           (update_crashes (\<lambda>c. c\<lparr>status := ''new'', assigned_ambulance_id := None\<rparr>) cid cs)"
  using assms
proof (rule list_all_update_crashes)
  fix c :: crash
  show "crash_ok (c\<lparr>status := ''new'', assigned_ambulance_id := None\<rparr>)"
    by (simp add: crash_ok_def)
qed

lemma reopen_cleared:
  assumes "c \<in> set (update_crashes (\<lambda>c. c\<lparr>status := ''new'', assigned_ambulance_id := None\<rparr>) cid cs)"
    and "crash_id c = cid"
  shows "assigned_ambulance_id c = None"
proof -
  from set_update_crashes [OF assms(1)]
  have "crash_id c \<noteq> cid
      \<or> (\<exists>c0\<in>set cs. c = c0\<lparr>status := ''new'', assigned_ambulance_id := None\<rparr>)"
    by blast
  with assms(2) obtain c0 where "c = c0\<lparr>status := ''new'', assigned_ambulance_id := None\<rparr>"
    by blast
  then show ?thesis by simp
qed

lemma decline_mission_db_inv:
  assumes "db_inv s"
  shows "db_inv (fst (decline_mission s session cid now))"
proof (cases "get_current_driver s session")
  case None
  then show ?thesis using assms by (simp add: db_inv_def decline_mission_fields)
next
  case (Some d)
  define cs1 where
    "cs1 = update_crashes (\<lambda>c. c\<lparr>status := ''new'', assigned_ambulance_id := None\<rparr>) cid (crashes s)"
  define s1 where "s1 = s\<lparr>crashes := cs1\<rparr>"
  have inv1: "db_inv s1"
    using assms by (simp add: db_inv_def s1_def cs1_def reopen_ok)
  have cleared: "\<And>c. c \<in> set (crashes s1) \<Longrightarrow> crash_id c = cid \<Longrightarrow> assigned_ambulance_id c = None"
    unfolding s1_def cs1_def by (simp add: reopen_cleared)
  show ?thesis
  proof (cases "select_crash s cid")
    case None
    have "crashes (fst (decline_mission s session cid now)) = crashes s1"
      by (simp add: decline_mission_fields(1) Some None s1_def cs1_def)
    with inv1 show ?thesis by (simp add: db_inv_def)
  next
    case r: (Some r)
    have "db_inv (fst (dispatch s1 cid (latitude r) (longitude r) (Some (unit_id d)) now))"
      using inv1 cleared by (rule dispatch_db_inv)
    moreover have "crashes (fst (decline_mission s session cid now)) =
        crashes (fst (dispatch s1 cid (latitude r) (longitude r) (Some (unit_id d)) now))"
      by (simp add: decline_mission_fields(1) Some r s1_def cs1_def)
    ultimately show ?thesis by (simp add: db_inv_def)
  qed
qed

lemma crash_ok_snapshot: "crash_ok (c\<lparr>snapshot_path := p\<rparr>) = crash_ok c"
  by (simp add: crash_ok_def)

lemma capture_snapshot_db_inv: "db_inv s \<Longrightarrow> db_inv (capture_snapshot s cid snap)"
proof (cases snap)
  case None
  then show "db_inv s \<Longrightarrow> db_inv (capture_snapshot s cid snap)"
    by (simp add: capture_snapshot_def)
next
  case (Some p)
  assume "db_inv s"
  then have all: "list_all crash_ok (crashes s)" by (simp add: db_inv_def)
  then have "list_all crash_ok (update_crashes (\<lambda>c. c\<lparr>snapshot_path := Some p\<rparr>) cid (crashes s))"
    by (rule list_all_update_crashes) (use all in \<open>simp add: crash_ok_snapshot list_all_iff\<close>)
  with Some show "db_inv (capture_snapshot s cid snap)"
    by (simp add: capture_snapshot_def db_inv_def)
qed

lemma capture_snapshot_rows:
  assumes "c \<in> set (crashes (capture_snapshot s cid snap))"
  shows "\<exists>c0\<in>set (crashes s). crash_id c0 = crash_id c
           \<and> assigned_ambulance_id c0 = assigned_ambulance_id c"
proof (cases snap)
  case None
  with assms show ?thesis by (auto simp: capture_snapshot_def)
next
  case (Some p)
  with assms have "c \<in> set (update_crashes (\<lambda>c. c\<lparr>snapshot_path := Some p\<rparr>) cid (crashes s))"
    by (simp add: capture_snapshot_def)
  from set_update_crashes [OF this] show ?thesis by auto
qed

lemma simulate_crash_db_inv:
  assumes "db_inv s"
  shows "db_inv (fst (simulate_crash s dlat dlon ts snap now))"
proof -
  define cid where "cid = next_rowid (crashes s)"
  define row where "row = \<lparr>crash_id = cid, timestamp = ts,
                 latitude = 10.5276 + dlat, longitude = 76.2144 + dlon,
                 snapshot_path = None, status = ''new'', assigned_ambulance_id = None\<rparr>"
  define s1 where "s1 = s\<lparr>crashes := crashes s @ [row]\<rparr>"
  have rowp: "crash_id row = cid" "assigned_ambulance_id row = None" "crash_ok row"
    by (simp_all add: row_def crash_ok_def)
  have inv1: "db_inv s1"
    using assms rowp by (simp add: db_inv_def s1_def)
  have inv2: "db_inv (capture_snapshot s1 cid snap)"
    using inv1 by (rule capture_snapshot_db_inv)
  have fresh: "assigned_ambulance_id c = None"
    if "c \<in> set (crashes (capture_snapshot s1 cid snap))" "crash_id c = cid" for c
  proof -
    from capture_snapshot_rows [OF that(1)] obtain c0 where
      c0: "c0 \<in> set (crashes s1)" "crash_id c0 = crash_id c"
          "assigned_ambulance_id c0 = assigned_ambulance_id c"
      by blast
    from c0(1) have "c0 \<in> set (crashes s) \<or> c0 = row" by (auto simp: s1_def)
    then show ?thesis
    proof
      assume "c0 \<in> set (crashes s)"
      then have "crash_id c0 < cid" unfolding cid_def by (rule next_rowid_fresh)
      with c0(2) that(2) show ?thesis by simp
    next
      assume "c0 = row"
      with rowp(2) c0(3) show ?thesis by simp
    qed
  qed
  have "db_inv (fst (dispatch (capture_snapshot s1 cid snap) cid
                       (10.5276 + dlat) (76.2144 + dlon) None now))"
    using inv2 fresh by (rule dispatch_db_inv)
  then show ?thesis
    by (simp add: db_inv_def simulate_crash_fields s1_def row_def cid_def)
qed

lemma step_db_inv: "db_inv s \<Longrightarrow> db_inv (step s r)"
  by (cases r)
     (simp_all add: simulate_crash_db_inv accept_mission_db_inv decline_mission_db_inv arrived_db_inv,
      simp_all add: db_inv_def set_availability_fields logout_fields sse_stream_fields
        generate_next_fields)

lemma run_db_inv: "db_inv s \<Longrightarrow> db_inv (run s rs)"
  unfolding run_def by (induction rs arbitrary: s) (simp_all add: step_db_inv)

subsection \<open>Evaluating a run\<close>

lemma set_availability_tables:
  "ambulances (fst (set_availability s session flag)) =
     (case get_current_driver s session of
        None \<Rightarrow> ambulances s
      | Some d \<Rightarrow>
          update_ambulances (\<lambda>a. a\<lparr>is_available := (if flag then 1 else 0)\<rparr>) (unit_id d) (ambulances s))"
  "drivers (fst (set_availability s session flag)) =
     (case get_current_driver s session of
        None \<Rightarrow> drivers s
      | Some d \<Rightarrow>
          update_drivers (\<lambda>r. r\<lparr>is_on_duty := (if flag then 1 else 0)\<rparr>) (driver_id d) (drivers s))"
  by (simp_all add: set_availability_def Let_def split: option.splits)

lemmas run_simps =
  run_def accept_mission_fields arrived_fields decline_mission_fields simulate_crash_fields
  set_availability_fields set_availability_tables dispatch_crashes dispatch_result
  get_current_driver_def select_crash_def eligible_units_def available_units_def
  update_crashes_def update_ambulances_def update_drivers_def capture_snapshot_def
  next_rowid_def py_min_def haversine_eq

subsection \<open>Dispatch and the incident\<close>

lemma select_crash_update:
  assumes "\<And>c. crash_id (f c) = crash_id c"
  shows "select_crash (s\<lparr>crashes := update_crashes f cid (crashes s)\<rparr>) cid
           = map_option f (select_crash s cid)"
  by (simp add: select_crash_def find_update_crashes assms)

lemma select_crash_push_event [simp]:
  "select_crash (push_event s u e d) cid = select_crash s cid"
  by (simp add: select_crash_def)


lemma available_units_set:
  "set (available_units s) =
     {a \<in> set (ambulances s). is_available a = 1
        \<and> (\<exists>d\<in>set (drivers s). unit_id d = amb_id a \<and> is_on_duty d = 1)}"
  by (auto simp: available_units_def)

text \<open>In exact arithmetic: when the incident exists and the list of eligible units is
  not empty, \<open>dispatch\<close> returns the first unit of that list whose distance to the
  crash location is minimal, records it in the incident and sets the status to
  \<^verbatim>\<open>waiting_for_driver\<close>.\<close>

lemma dispatch_returns_nearest:
  assumes "select_crash s cid = Some c" and "eligible_units s exclude_unit \<noteq> []"
  shows "\<exists>nearest pre post d.
      eligible_units s exclude_unit = pre @ nearest # post
    \<and> haversine crash_lat crash_lon (amb_lat nearest) (amb_lon nearest) = Inr d
    \<and> (\<forall>v\<in>set pre. \<exists>dv. haversine crash_lat crash_lon (amb_lat v) (amb_lon v) = Inr dv \<and> d < dv)
    \<and> (\<forall>v\<in>set post. \<exists>dv. haversine crash_lat crash_lon (amb_lat v) (amb_lon v) = Inr dv \<and> d \<le> dv)
    \<and> snd (dispatch s cid crash_lat crash_lon exclude_unit now) = Returned (Some (amb_id nearest))
    \<and> select_crash (fst (dispatch s cid crash_lat crash_lon exclude_unit now)) cid =
        Some (c\<lparr>assigned_ambulance_id := Some (amb_id nearest), status := ''waiting_for_driver''\<rparr>)"
proof -
  from dispatch_some [OF assms(2), of crash_lat crash_lon cid now]
  obtain nearest pre post d addr where
      sp: "eligible_units s exclude_unit = pre @ nearest # post"
    and d: "haversine crash_lat crash_lon (amb_lat nearest) (amb_lon nearest) = Inr d"
    and lt: "\<forall>v\<in>set pre. \<exists>dv. haversine crash_lat crash_lon (amb_lat v) (amb_lon v) = Inr dv \<and> d < dv"
    and le: "\<forall>v\<in>set post. \<exists>dv. haversine crash_lat crash_lon (amb_lat v) (amb_lon v) = Inr dv \<and> d \<le> dv"
    and eq: "dispatch s cid crash_lat crash_lon exclude_unit now =
        (push_event
           (s\<lparr>crashes :=
                update_crashes
                  (\<lambda>c. c\<lparr>assigned_ambulance_id := Some (amb_id nearest),
                         status := ''waiting_for_driver''\<rparr>)
                  cid (crashes s)\<rparr>)
           (amb_id nearest) ''mission_assigned''
           (Mission_assigned cid (amb_id nearest) crash_lat crash_lon (round2 d) addr now),
         Returned (Some (amb_id nearest)))"
    by blast
  have "select_crash (fst (dispatch s cid crash_lat crash_lon exclude_unit now)) cid =
        Some (c\<lparr>assigned_ambulance_id := Some (amb_id nearest), status := ''waiting_for_driver''\<rparr>)"
    by (simp add: eq select_crash_update assms(1))
  moreover have "snd (dispatch s cid crash_lat crash_lon exclude_unit now)
      = Returned (Some (amb_id nearest))"
    by (simp add: eq)
  ultimately show ?thesis using sp d lt le by blast
qed





subsection \<open>Accept, decline, arrive\<close>

lemma accept_mission_logged_in:
  assumes "get_current_driver s session = Some d"
  shows "snd (accept_mission s session cid) = Http200 ''en_route''"
    and "select_crash (fst (accept_mission s session cid)) cid
           = map_option (\<lambda>c. c\<lparr>status := ''en_route''\<rparr>) (select_crash s cid)"
    and "select_ambulance (fst (accept_mission s session cid)) (unit_id d)
           = map_option (\<lambda>a. a\<lparr>is_available := 0\<rparr>) (select_ambulance s (unit_id d))"
proof -
  show "snd (accept_mission s session cid) = Http200 ''en_route''"
    using assms by (simp add: accept_mission_def Let_def)
  show "select_crash (fst (accept_mission s session cid)) cid
           = map_option (\<lambda>c. c\<lparr>status := ''en_route''\<rparr>) (select_crash s cid)"
    using assms by (simp add: select_crash_def accept_mission_fields find_update_crashes)
  show "select_ambulance (fst (accept_mission s session cid)) (unit_id d)
           = map_option (\<lambda>a. a\<lparr>is_available := 0\<rparr>) (select_ambulance s (unit_id d))"
    using assms by (simp add: select_ambulance_def accept_mission_fields find_update_ambulances)
qed

lemma arrived_logged_in:
  assumes "get_current_driver s session = Some d"
  shows "snd (arrived s session cid) = Http200 ''resolved''"
    and "select_crash (fst (arrived s session cid)) cid
           = map_option (\<lambda>c. c\<lparr>status := ''resolved''\<rparr>) (select_crash s cid)"
    and "select_ambulance (fst (arrived s session cid)) (unit_id d)
           = map_option (\<lambda>a. a\<lparr>is_available := 1\<rparr>) (select_ambulance s (unit_id d))"
proof -
  show "snd (arrived s session cid) = Http200 ''resolved''"
    using assms by (simp add: arrived_def Let_def)
  show "select_crash (fst (arrived s session cid)) cid
           = map_option (\<lambda>c. c\<lparr>status := ''resolved''\<rparr>) (select_crash s cid)"
    using assms by (simp add: select_crash_def arrived_fields find_update_crashes)
  show "select_ambulance (fst (arrived s session cid)) (unit_id d)
           = map_option (\<lambda>a. a\<lparr>is_available := 1\<rparr>) (select_ambulance s (unit_id d))"
    using assms by (simp add: select_ambulance_def arrived_fields find_update_ambulances)
qed

lemma not_logged_in:
  assumes "get_current_driver s session = None"
  shows "accept_mission s session cid = (s, Http401)"
    and "decline_mission s session cid now = (s, Returned Http401)"
    and "arrived s session cid = (s, Http401)"
  using assms by (simp_all add: accept_mission_def decline_mission_def arrived_def)

text \<open>Decline with a logged-in driver, in terms of the dispatch it runs.\<close>

lemma decline_mission_logged_in:
  assumes "get_current_driver s session = Some d"
  shows "decline_mission s session cid now =
     (case select_crash s cid of
        None \<Rightarrow>
          (s\<lparr>crashes :=
               update_crashes (\<lambda>c. c\<lparr>status := ''new'', assigned_ambulance_id := None\<rparr>)
                 cid (crashes s)\<rparr>,
           Returned (Http200 None))
      | Some r \<Rightarrow>
          (fst (dispatch
                  (s\<lparr>crashes :=
                       update_crashes (\<lambda>c. c\<lparr>status := ''new'', assigned_ambulance_id := None\<rparr>)
                         cid (crashes s)\<rparr>)
                  cid (latitude r) (longitude r) (Some (unit_id d)) now),
           Returned (Http200
             (case snd (dispatch
                  (s\<lparr>crashes :=
                       update_crashes (\<lambda>c. c\<lparr>status := ''new'', assigned_ambulance_id := None\<rparr>)
                         cid (crashes s)\<rparr>)
                  cid (latitude r) (longitude r) (Some (unit_id d)) now) of
                Returned a \<Rightarrow> a | Raised e \<Rightarrow> None))))"
proof (cases "select_crash s cid")
  case None
  with assms show ?thesis by (simp add: decline_mission_def Let_def)
next
  case (Some r)
  define s1 where "s1 = s\<lparr>crashes :=
      update_crashes (\<lambda>c. c\<lparr>status := ''new'', assigned_ambulance_id := None\<rparr>) cid (crashes s)\<rparr>"
  obtain s2 a where eq: "dispatch s1 cid (latitude r) (longitude r) (Some (unit_id d)) now
      = (s2, Returned a)"
    using dispatch_returns [of s1 cid "latitude r" "longitude r" "Some (unit_id d)" now]
    by (cases "dispatch s1 cid (latitude r) (longitude r) (Some (unit_id d)) now") auto
  then show ?thesis
    using assms Some by (simp add: decline_mission_def Let_def s1_def [symmetric])
qed

lemma eligible_units_excluded:
  assumes "u \<noteq> []" and "v \<in> set (eligible_units s (Some u))"
  shows "amb_id v \<noteq> u"
  using assms by (simp add: eligible_units_def)

lemma eligible_units_crashes [simp]:
  "eligible_units (s\<lparr>crashes := cs\<rparr>) ex = eligible_units s ex"
  by (cases ex) (simp_all add: eligible_units_def available_units_def)

lemma eligible_units_empty_exclusion: "eligible_units s (Some []) = available_units s"
  by (simp add: eligible_units_def)

lemma unit_ids_update_drivers:
  "(\<And>d. unit_id (f d) = unit_id d) \<Longrightarrow> map unit_id (update_drivers f did ds) = map unit_id ds"
  by (simp add: update_drivers_def)

lemma step_unit_ids: "map unit_id (drivers (step s r)) = map unit_id (drivers s)"
proof (cases r)
  case (Set_availability session flag)
  then show ?thesis
    by (cases "get_current_driver s session")
       (simp_all add: set_availability_tables unit_ids_update_drivers)
next
  case (Logout session)
  then show ?thesis
    by (cases "get_current_driver s session")
       (simp_all add: logout_def unit_ids_update_drivers)
qed (simp_all add: simulate_crash_fields accept_mission_fields decline_mission_fields
      arrived_fields sse_stream_fields generate_next_fields)

lemma units_named_iff: "units_named s \<longleftrightarrow> [] \<notin> set (map unit_id (drivers s))"
  by (force simp: units_named_def list_all_iff)

lemma run_units_named: "units_named s \<Longrightarrow> units_named (run s rs)"
  unfolding run_def
  by (induction rs arbitrary: s) (simp_all add: units_named_iff step_unit_ids del: set_map)

lemma init_state_units_named: "units_named init_state"
  by (simp add: units_named_def init_state_def)

text \<open>No statement writes \<^verbatim>\<open>unit_id\<close>, so the unit ids also stay as they are when
  requests overlap.\<close>

lemma execute_unit_ids: "map unit_id (drivers (execute s st)) = map unit_id (drivers s)"
  by (cases st) (simp_all add: unit_ids_update_drivers generate_next_fields)

lemma run_statements_units_named: "units_named s \<Longrightarrow> units_named (run_statements s stmts)"
  unfolding run_statements_def
  by (induction stmts arbitrary: s) (simp_all add: units_named_iff execute_unit_ids del: set_map)

lemma get_current_driver_mem: "get_current_driver s session = Some d \<Longrightarrow> d \<in> set (drivers s)"
  by (auto simp: get_current_driver_def split: option.splits if_splits dest: find_Some_mem)

text \<open>
  C6. In every state whose drivers all have a non-empty unit id (the seeded database
  and every state reached from it), when a logged-in driver declines an incident the
  re-dispatch never hands the incident back to that driver's unit: the unit the route
  reports as reassigned is not the declining one, and the incident's assigned unit
  afterwards is not the declining one.
\<close>

theorem decline_excludes_declining_unit:
  assumes "units_named s" and "get_current_driver s session = Some d"
  shows "snd (decline_mission s session cid now) \<noteq> Returned (Http200 (Some (unit_id d)))
    \<and> (\<forall>c. select_crash (fst (decline_mission s session cid now)) cid = Some c
           \<longrightarrow> assigned_ambulance_id c \<noteq> Some (unit_id d))"
proof (cases "select_crash s cid")
  case None
  then have "select_crash (fst (decline_mission s session cid now)) cid = None"
    using assms(2)
    by (simp add: decline_mission_logged_in select_crash_update)
  moreover have "snd (decline_mission s session cid now) = Returned (Http200 None)"
    using assms(2) None by (simp add: decline_mission_logged_in)
  ultimately show ?thesis by simp
next
  case (Some r)
  define s1 where "s1 = s\<lparr>crashes :=
      update_crashes (\<lambda>c. c\<lparr>status := ''new'', assigned_ambulance_id := None\<rparr>) cid (crashes s)\<rparr>"
  define r1 where "r1 = r\<lparr>status := ''new'', assigned_ambulance_id := None\<rparr>"
  have sel1: "select_crash s1 cid = Some r1"
    by (simp add: s1_def r1_def select_crash_update Some)
  have dec: "decline_mission s session cid now =
      (fst (dispatch s1 cid (latitude r) (longitude r) (Some (unit_id d)) now),
       Returned (Http200
         (case snd (dispatch s1 cid (latitude r) (longitude r) (Some (unit_id d)) now) of
            Returned a \<Rightarrow> a | Raised e \<Rightarrow> None)))"
    using assms(2) Some by (simp add: decline_mission_logged_in s1_def)
  have named: "unit_id d \<noteq> []"
    using assms(1) get_current_driver_mem [OF assms(2)] by (simp add: units_named_def list_all_iff)
  show ?thesis
  proof (cases "eligible_units s1 (Some (unit_id d)) = []")
    case True
    have "dispatch s1 cid (latitude r) (longitude r) (Some (unit_id d)) now =
        (s1\<lparr>crashes := update_crashes (\<lambda>c. c\<lparr>status := ''no_unit_available''\<rparr>) cid (crashes s1)\<rparr>,
         Returned None)"
      using True by (rule dispatch_none)
    then show ?thesis
      by (simp add: dec select_crash_update sel1 r1_def)
  next
    case False
    from dispatch_some [OF False, of "latitude r" "longitude r" cid now]
    obtain nearest pre post dk addr where
        sp: "eligible_units s1 (Some (unit_id d)) = pre @ nearest # post"
      and eq: "dispatch s1 cid (latitude r) (longitude r) (Some (unit_id d)) now =
          (push_event
             (s1\<lparr>crashes :=
                  update_crashes
                    (\<lambda>c. c\<lparr>assigned_ambulance_id := Some (amb_id nearest),
                           status := ''waiting_for_driver''\<rparr>)
                    cid (crashes s1)\<rparr>)
             (amb_id nearest) ''mission_assigned''
             (Mission_assigned cid (amb_id nearest) (latitude r) (longitude r) (round2 dk) addr now),
           Returned (Some (amb_id nearest)))"
      by blast
    from sp have "nearest \<in> set (eligible_units s1 (Some (unit_id d)))" by simp
    with named have ne: "amb_id nearest \<noteq> unit_id d"
      by (rule eligible_units_excluded)
    show ?thesis
      using ne by (simp add: dec eq select_crash_update sel1 r1_def)
  qed
qed

theorem decline_excludes_declining_unit_witness:
  "units_named (run init_state
      [Set_availability (Some 1) True,
       Simulate_crash 0 0 ''2024-01-01T10:00:00'' None ''2024-01-01T10:00:01'',
       Set_availability (Some 2) True])
   \<and> map_option unit_id (get_current_driver (run init_state
      [Set_availability (Some 1) True,
       Simulate_crash 0 0 ''2024-01-01T10:00:00'' None ''2024-01-01T10:00:01'',
       Set_availability (Some 2) True]) (Some 1)) = Some ''Unit-01''
   \<and> snd (decline_mission (run init_state
      [Set_availability (Some 1) True,
       Simulate_crash 0 0 ''2024-01-01T10:00:00'' None ''2024-01-01T10:00:01'',
       Set_availability (Some 2) True]) (Some 1) 1 ''2024-01-01T10:05:00'')
     = Returned (Http200 (Some ''Unit-02''))"
proof -
  define S where "S = run init_state
      [Set_availability (Some 1) True,
       Simulate_crash 0 0 ''2024-01-01T10:00:00'' None ''2024-01-01T10:00:01'',
       Set_availability (Some 2) True]"
  have named: "units_named S"
    unfolding S_def using init_state_units_named by (rule run_units_named)
  have drv: "drivers S = (drivers init_state)
      [0 := (drivers init_state ! 0)\<lparr>is_on_duty := 1\<rparr>, 1 := (drivers init_state ! 1)\<lparr>is_on_duty := 1\<rparr>]"
    by (simp add: S_def run_simps init_state_def)
  have amb: "ambulances S = ambulances init_state"
    by (simp add: S_def run_simps init_state_def)
  have crs: "crashes S =
      [\<lparr>crash_id = 1, timestamp = ''2024-01-01T10:00:00'', latitude = 10.5276,
        longitude = 76.2144, snapshot_path = None, status = ''waiting_for_driver'',
        assigned_ambulance_id = Some ''Unit-01''\<rparr>]"
    by (simp add: S_def run_simps init_state_def)
  have cur: "get_current_driver S (Some 1) = Some ((drivers init_state ! 0)\<lparr>is_on_duty := 1\<rparr>)"
    by (simp add: get_current_driver_def drv init_state_def)
  have res: "snd (decline_mission S (Some 1) 1 ''2024-01-01T10:05:00'')
      = Returned (Http200 (Some ''Unit-02''))"
    by (simp add: decline_mission_logged_in [OF cur] select_crash_def crs dispatch_result
        eligible_units_def available_units_def drv amb init_state_def py_min_def haversine_eq)
  from decline_excludes_declining_unit [OF named cur, of 1 "''2024-01-01T10:05:00''"]
  show ?thesis
    unfolding S_def [symmetric] using named cur res by (simp add: init_state_def)
qed

subsection \<open>Reporting and declining, end to end\<close>

lemma find_append_fresh:
  "\<forall>x\<in>set xs. \<not> P x \<Longrightarrow> P y \<Longrightarrow> find P (xs @ [y]) = Some y"
  by (induction xs) auto

lemma select_crash_capture_snapshot:
  "select_crash (capture_snapshot s cid snap) cid =
     map_option (\<lambda>c. case snap of None \<Rightarrow> c | Some p \<Rightarrow> c\<lparr>snapshot_path := Some p\<rparr>)
       (select_crash s cid)"
  by (cases snap; cases "select_crash s cid")
     (simp_all add: capture_snapshot_def select_crash_update)

lemma eligible_units_capture_snapshot [simp]:
  "eligible_units (capture_snapshot s cid snap) ex = eligible_units s ex"
  by (cases snap) (simp_all add: capture_snapshot_def)

text \<open>\<^verbatim>\<open>simulate_crash\<close> end to end: the new incident gets the next row id and the
  coordinates drawn; it ends in \<^verbatim>\<open>no_unit_available\<close> with no unit when no unit is
  available and staffed, and otherwise in \<^verbatim>\<open>waiting_for_driver\<close> with the first
  nearest such unit.\<close>

lemma simulate_crash_outcome:
  assumes cid: "cid = next_rowid (crashes s)"
    and lat: "lat = 10.5276 + dlat" and lon: "lon = 76.2144 + dlon"
    and s': "s' = fst (simulate_crash s dlat dlon ts snap now)"
  shows "\<exists>c. select_crash s' cid = Some c \<and> latitude c = lat \<and> longitude c = lon
     \<and> (if available_units s = []
         then status c = ''no_unit_available'' \<and> assigned_ambulance_id c = None
           \<and> snd (simulate_crash s dlat dlon ts snap now) = Returned (Http200 (cid, None, lat, lon))
         else \<exists>nearest pre post d.
             available_units s = pre @ nearest # post
           \<and> haversine lat lon (amb_lat nearest) (amb_lon nearest) = Inr d
           \<and> (\<forall>v\<in>set pre. \<exists>dv. haversine lat lon (amb_lat v) (amb_lon v) = Inr dv \<and> d < dv)
           \<and> (\<forall>v\<in>set post. \<exists>dv. haversine lat lon (amb_lat v) (amb_lon v) = Inr dv \<and> d \<le> dv)
           \<and> status c = ''waiting_for_driver''
           \<and> assigned_ambulance_id c = Some (amb_id nearest)
           \<and> snd (simulate_crash s dlat dlon ts snap now)
               = Returned (Http200 (cid, Some (amb_id nearest), lat, lon)))"
proof -
  define row where "row = \<lparr>crash_id = cid, timestamp = ts, latitude = lat, longitude = lon,
      snapshot_path = None, status = ''new'', assigned_ambulance_id = None\<rparr>"
  define s1 where "s1 = s\<lparr>crashes := crashes s @ [row]\<rparr>"
  define s2 where "s2 = capture_snapshot s1 cid snap"
  define row2 where "row2 = (case snap of None \<Rightarrow> row | Some p \<Rightarrow> row\<lparr>snapshot_path := Some p\<rparr>)"
  have sim: "simulate_crash s dlat dlon ts snap now =
      (case dispatch s2 cid lat lon None now of
         (s3, Raised e) \<Rightarrow> (s3, Raised e)
       | (s3, Returned assigned) \<Rightarrow> (s3, Returned (Http200 (cid, assigned, lat, lon))))"
    unfolding simulate_crash_def Let_def s2_def s1_def row_def cid lat lon by (rule refl)
  have "crash_id c \<noteq> cid" if "c \<in> set (crashes s)" for c
    using next_rowid_fresh [OF that] by (simp add: cid)
  then have "\<forall>c\<in>set (crashes s). \<not> crash_id c = cid"
    by blast
  then have "select_crash s1 cid = Some row"
    by (simp add: select_crash_def s1_def find_append_fresh row_def)
  then have sel2: "select_crash s2 cid = Some row2"
    by (simp add: s2_def select_crash_capture_snapshot row2_def)
  have row2: "latitude row2 = lat" "longitude row2 = lon" "assigned_ambulance_id row2 = None"
    by (simp_all add: row2_def row_def split: option.splits)
  have el: "eligible_units s2 None = available_units s"
    by (simp add: s2_def s1_def) (simp add: eligible_units_def)
  show ?thesis
  proof (cases "available_units s = []")
    case True
    then have d: "dispatch s2 cid lat lon None now =
        (s2\<lparr>crashes := update_crashes (\<lambda>c. c\<lparr>status := ''no_unit_available''\<rparr>) cid (crashes s2)\<rparr>,
         Returned None)"
      using el by (simp add: dispatch_none)
    have "select_crash s' cid = Some (row2\<lparr>status := ''no_unit_available''\<rparr>)"
      by (simp add: s' sim d select_crash_update sel2)
    then show ?thesis using True row2 by (simp add: sim d)
  next
    case False
    then have ne: "eligible_units s2 None \<noteq> []" using el by simp
    from dispatch_some [OF ne, of lat lon cid now]
    obtain nearest pre post d addr where
        sp: "eligible_units s2 None = pre @ nearest # post"
      and dd: "haversine lat lon (amb_lat nearest) (amb_lon nearest) = Inr d"
      and lt: "\<forall>v\<in>set pre. \<exists>dv. haversine lat lon (amb_lat v) (amb_lon v) = Inr dv \<and> d < dv"
      and le: "\<forall>v\<in>set post. \<exists>dv. haversine lat lon (amb_lat v) (amb_lon v) = Inr dv \<and> d \<le> dv"
      and eq: "dispatch s2 cid lat lon None now =
          (push_event
             (s2\<lparr>crashes :=
                  update_crashes
                    (\<lambda>c. c\<lparr>assigned_ambulance_id := Some (amb_id nearest),
                           status := ''waiting_for_driver''\<rparr>)
                    cid (crashes s2)\<rparr>)
             (amb_id nearest) ''mission_assigned''
             (Mission_assigned cid (amb_id nearest) lat lon (round2 d) addr now),
           Returned (Some (amb_id nearest)))"
      by blast
    have "select_crash s' cid =
        Some (row2\<lparr>assigned_ambulance_id := Some (amb_id nearest), status := ''waiting_for_driver''\<rparr>)"
      by (simp add: s' sim eq select_crash_update sel2)
    moreover have "snd (simulate_crash s dlat dlon ts snap now)
               = Returned (Http200 (cid, Some (amb_id nearest), lat, lon))"
      by (simp add: sim eq)
    moreover have "available_units s = pre @ nearest # post"
      using sp el by simp
    ultimately show ?thesis using False row2 dd lt le by auto
  qed
qed

text \<open>Decline when no other unit is available and staffed: the incident ends in
  \<^verbatim>\<open>no_unit_available\<close> with no unit, and nothing is reported as reassigned.\<close>

lemma decline_no_other_unit:
  assumes "get_current_driver s session = Some d" and "select_crash s cid = Some c"
    and "eligible_units s (Some (unit_id d)) = []"
  shows "snd (decline_mission s session cid now) = Returned (Http200 None)"
    and "select_crash (fst (decline_mission s session cid now)) cid =
           Some (c\<lparr>status := ''no_unit_available'', assigned_ambulance_id := None\<rparr>)"
proof -
  define s1 where "s1 = s\<lparr>crashes :=
      update_crashes (\<lambda>c. c\<lparr>status := ''new'', assigned_ambulance_id := None\<rparr>) cid (crashes s)\<rparr>"
  have el: "eligible_units s1 (Some (unit_id d)) = []"
    using assms(3) by (simp add: s1_def)
  have sel1: "select_crash s1 cid = Some (c\<lparr>status := ''new'', assigned_ambulance_id := None\<rparr>)"
    by (simp add: s1_def select_crash_update assms(2))
  have dec: "decline_mission s session cid now =
      (fst (dispatch s1 cid (latitude c) (longitude c) (Some (unit_id d)) now),
       Returned (Http200
         (case snd (dispatch s1 cid (latitude c) (longitude c) (Some (unit_id d)) now) of
            Returned a \<Rightarrow> a | Raised e \<Rightarrow> None)))"
    using assms(1,2) by (simp add: decline_mission_logged_in s1_def)
  show "snd (decline_mission s session cid now) = Returned (Http200 None)"
    by (simp add: dec dispatch_none [OF el])
  show "select_crash (fst (decline_mission s session cid now)) cid =
           Some (c\<lparr>status := ''no_unit_available'', assigned_ambulance_id := None\<rparr>)"
    by (simp add: dec dispatch_none [OF el] select_crash_update sel1)
qed

subsection \<open>The example states, table by table\<close>

lemma assigned_state_tables:
  "crashes assigned_state =
     [\<lparr>crash_id = 1, timestamp = ''2024-01-01T10:00:00'', latitude = 10.5276,
       longitude = 76.2144, snapshot_path = None, status = ''waiting_for_driver'',
       assigned_ambulance_id = Some ''Unit-01''\<rparr>]"
  "ambulances assigned_state = ambulances init_state"
  "drivers assigned_state = (drivers init_state)[0 := (drivers init_state ! 0)\<lparr>is_on_duty := 1\<rparr>]"
  by (simp_all add: assigned_state_def run_simps init_state_def)

lemma resolved_state_tables:
  "crashes resolved_state =
     [\<lparr>crash_id = 1, timestamp = ''2024-01-01T10:00:00'', latitude = 10.5276,
       longitude = 76.2144, snapshot_path = None, status = ''resolved'',
       assigned_ambulance_id = Some ''Unit-01''\<rparr>]"
  "ambulances resolved_state = ambulances init_state"
  "drivers resolved_state = drivers assigned_state"
  by (simp_all add: resolved_state_def run_simps assigned_state_tables init_state_def)

lemma two_incidents_tables:
  "crashes two_incidents =
     [\<lparr>crash_id = 1, timestamp = ''2024-01-01T10:00:00'', latitude = 10.5276,
       longitude = 76.2144, snapshot_path = None, status = ''en_route'',
       assigned_ambulance_id = Some ''Unit-01''\<rparr>,
      \<lparr>crash_id = 2, timestamp = ''2024-01-01T11:00:00'', latitude = 10.5276,
       longitude = 76.2144, snapshot_path = None, status = ''waiting_for_driver'',
       assigned_ambulance_id = Some ''Unit-02''\<rparr>]"
  "ambulances two_incidents =
     (ambulances init_state)[0 := (ambulances init_state ! 0)\<lparr>is_available := 0\<rparr>]"
  "drivers two_incidents =
     (drivers init_state)
       [0 := (drivers init_state ! 0)\<lparr>is_on_duty := 1\<rparr>,
        1 := (drivers init_state ! 1)\<lparr>is_on_duty := 1\<rparr>]"
  by (simp_all add: two_incidents_def run_simps assigned_state_tables init_state_def)

subsection \<open>Statements and interleavings\<close>

text \<open>A request that runs alone executes its statements: \<open>step\<close> is
  \<open>run_statements\<close> on \<open>statements\<close>, and a run of requests served one after another
  is the execution of their statements in that order.\<close>

lemma run_statements_append:
  "run_statements s (xs @ ys) = run_statements (run_statements s xs) ys"
  by (simp add: run_statements_def)

lemma run_statements_Cons:
  "run_statements s (x # xs) = run_statements (execute s x) xs"
  by (simp add: run_statements_def)

lemma run_statements_Nil: "run_statements s [] = s"
  by (simp add: run_statements_def)

lemma dispatch_as_statements:
  "fst (dispatch s cid lat lon ex now) = run_statements s (dispatch_statements s cid lat lon ex now)"
  by (simp add: dispatch_def dispatch_statements_def run_statements_def Let_def
      split: sum.splits)

lemma step_as_statements: "step s r = run_statements s (statements s r)"
proof (cases r)
  case (Simulate_crash dlat dlon ts snap now)
  then show ?thesis
    by (cases snap)
       (simp_all add: simulate_crash_def Let_def fst_case_outcome dispatch_as_statements
          run_statements_append capture_snapshot_def run_statements_Cons run_statements_Nil)
next
  case (Accept_mission session cid)
  then show ?thesis
    by (cases "get_current_driver s session")
       (simp_all add: accept_mission_def Let_def run_statements_def)
next
  case (Decline_mission session cid now)
  then show ?thesis
    by (cases "get_current_driver s session"; cases "select_crash s cid")
       (simp_all add: decline_mission_def Let_def fst_case_outcome dispatch_as_statements
          run_statements_Cons run_statements_Nil)
next
  case (Arrived session cid)
  then show ?thesis
    by (cases "get_current_driver s session")
       (simp_all add: arrived_def Let_def run_statements_def)
next
  case (Set_availability session flag)
  then show ?thesis
    by (cases "get_current_driver s session")
       (simp_all add: set_availability_def Let_def run_statements_def)
next
  case (Logout session)
  then show ?thesis
    by (cases "get_current_driver s session")
       (simp_all add: logout_def run_statements_def)
next
  case (Sse_stream session)
  then show ?thesis
    by (cases "get_current_driver s session")
       (simp_all add: sse_stream_def Let_def run_statements_def)
next
  case (Generate_next q)
  then show ?thesis by (simp add: run_statements_def)
qed

lemma run_as_statements: "run s rs = run_statements s (run_statements_of s rs)"
  by (induction rs arbitrary: s)
     (simp_all add: run_def run_statements_append step_as_statements [symmetric]
        run_statements_Nil)

text \<open>Every statement keeps the pairing of \<^verbatim>\<open>new\<close> and
  \<^verbatim>\<open>waiting_for_driver\<close> with the assigned unit, whatever its arguments; the stricter
  pairing of serial runs implies it.\<close>

lemma pairing_ok_update:
  "pairing_ok (c\<lparr>snapshot_path := p\<rparr>) = pairing_ok c"
  "pairing_ok (c\<lparr>status := ''no_unit_available''\<rparr>)"
  "pairing_ok (c\<lparr>assigned_ambulance_id := Some u, status := ''waiting_for_driver''\<rparr>)"
  "pairing_ok (c\<lparr>status := ''en_route''\<rparr>)"
  "pairing_ok (c\<lparr>status := ''new'', assigned_ambulance_id := None\<rparr>)"
  "pairing_ok (c\<lparr>status := ''resolved''\<rparr>)"
  by (simp_all add: pairing_ok_def)

lemma execute_pairing_inv:
  assumes "pairing_inv s"
  shows "pairing_inv (execute s st)"
proof -
  have inv: "list_all pairing_ok (crashes s)"
    using assms by (simp add: pairing_inv_def)
  have upd: "list_all pairing_ok (update_crashes f cid (crashes s))"
    if "\<And>c. pairing_ok c \<Longrightarrow> pairing_ok (f c)" for f cid
    using inv that by (auto simp: update_crashes_def list_all_iff)
  show ?thesis
  proof (cases st)
    case (Insert_crash ts lat lon)
    then show ?thesis using inv by (simp add: pairing_inv_def pairing_ok_def)
  next
    case (Update_snapshot_path cid p)
    then show ?thesis by (simp add: pairing_inv_def upd pairing_ok_update)
  next
    case (Update_no_unit_available cid)
    then show ?thesis by (simp add: pairing_inv_def upd pairing_ok_update)
  next
    case (Update_assigned cid u)
    then show ?thesis by (simp add: pairing_inv_def upd pairing_ok_update)
  next
    case (Update_en_route cid)
    then show ?thesis by (simp add: pairing_inv_def upd pairing_ok_update)
  next
    case (Update_reopened cid)
    then show ?thesis by (simp add: pairing_inv_def upd pairing_ok_update)
  next
    case (Update_resolved cid)
    then show ?thesis by (simp add: pairing_inv_def upd pairing_ok_update)
  next
    case (Queue_get q)
    then show ?thesis using inv by (simp add: pairing_inv_def generate_next_fields)
  qed (use inv in \<open>simp_all add: pairing_inv_def\<close>)
qed

lemma run_statements_pairing_inv: "pairing_inv s \<Longrightarrow> pairing_inv (run_statements s stmts)"
  unfolding run_statements_def
  by (induction stmts arbitrary: s) (simp_all add: execute_pairing_inv)

lemma db_inv_pairing_inv: "db_inv s \<Longrightarrow> pairing_inv s"
  by (auto simp: db_inv_def pairing_inv_def list_all_iff crash_ok_def pairing_ok_def)

text \<open>The two overlapping declines: the incident row afterwards, and the run as a
  sequence of statements that begins with driver 1's clearing \<^verbatim>\<open>UPDATE\<close>.\<close>

lemma interleaved_declines_tables:
  "crashes interleaved_declines =
     [\<lparr>crash_id = 1, timestamp = ''2024-01-01T10:00:00'', latitude = 10.5276,
       longitude = 76.2144, snapshot_path = None, status = ''no_unit_available'',
       assigned_ambulance_id = Some ''Unit-01''\<rparr>]"
proof -
  define s1 where "s1 = execute assigned_state (Update_reopened 1)"
  have t1: "crashes s1 =
     [\<lparr>crash_id = 1, timestamp = ''2024-01-01T10:00:00'', latitude = 10.5276,
       longitude = 76.2144, snapshot_path = None, status = ''new'',
       assigned_ambulance_id = None\<rparr>]"
    "ambulances s1 = ambulances init_state"
    "drivers s1 = (drivers init_state)[0 := (drivers init_state ! 0)\<lparr>is_on_duty := 1\<rparr>]"
    by (simp_all add: s1_def assigned_state_tables update_crashes_def)
  define s2 where "s2 = fst (decline_mission s1 (Some 2) 1 ''2024-01-01T10:05:01'')"
  have t2: "crashes s2 =
     [\<lparr>crash_id = 1, timestamp = ''2024-01-01T10:00:00'', latitude = 10.5276,
       longitude = 76.2144, snapshot_path = None, status = ''waiting_for_driver'',
       assigned_ambulance_id = Some ''Unit-01''\<rparr>]"
    "ambulances s2 = ambulances init_state"
    "drivers s2 = (drivers init_state)[0 := (drivers init_state ! 0)\<lparr>is_on_duty := 1\<rparr>]"
    by (simp_all add: s2_def run_simps t1 init_state_def)
  show ?thesis
    unfolding interleaved_declines_def s1_def [symmetric] s2_def [symmetric]
    by (simp add: run_simps t2 init_state_def)
qed

lemma interleaved_declines_statements:
  "\<exists>stmts. interleaved_declines = run_statements assigned_state (Update_reopened 1 # stmts)"
proof -
  define s1 where "s1 = execute assigned_state (Update_reopened 1)"
  define s2 where "s2 = fst (decline_mission s1 (Some 2) 1 ''2024-01-01T10:05:01'')"
  define l1 where "l1 = statements s1 (Decline_mission (Some 2) 1 ''2024-01-01T10:05:01'')"
  define l2 where "l2 =
    dispatch_statements s2 1 10.5276 76.2144 (Some ''Unit-01'') ''2024-01-01T10:05:02''"
  have e1: "s1 = run_statements assigned_state [Update_reopened 1]"
    unfolding s1_def run_statements_def by simp
  have e2: "s2 = run_statements s1 l1"
    unfolding s2_def l1_def step_as_statements [symmetric] by simp
  have e3: "interleaved_declines = run_statements s2 l2"
    unfolding interleaved_declines_def s1_def [symmetric] s2_def [symmetric] l2_def
    by (rule dispatch_as_statements)
  have "interleaved_declines = run_statements assigned_state ([Update_reopened 1] @ l1 @ l2)"
    unfolding e3 e2 e1 run_statements_append by (rule refl)
  then show ?thesis by auto
qed

text \<open>
  C1 (as amended). In every state reached from a table that satisfies it (the empty
  table of \<^verbatim>\<open>init_db\<close> does) by statements of the routes executed in any order, so
  also when the statements of concurrent requests are interleaved, and in every state
  reached by requests served one after another: an incident whose status is \<^verbatim>\<open>new\<close>
  has no assigned unit, and an incident whose status is \<^verbatim>\<open>waiting_for_driver\<close> has
  one.
\<close>

theorem status_assignment_invariant:
  assumes "pairing_inv s"
    and "c \<in> set (crashes (run_statements s stmts)) \<or> c \<in> set (crashes (run s rs))"
  shows "(status c = ''new'' \<longrightarrow> assigned_ambulance_id c = None)
       \<and> (status c = ''waiting_for_driver'' \<longrightarrow> assigned_ambulance_id c \<noteq> None)"
proof -
  have "pairing_inv (run_statements s stmts)"
    using assms(1) by (rule run_statements_pairing_inv)
  moreover have "pairing_inv (run s rs)"
    unfolding run_as_statements using assms(1) by (rule run_statements_pairing_inv)
  ultimately have "pairing_ok c"
    using assms(2) by (auto simp: pairing_inv_def list_all_iff)
  then show ?thesis by (simp add: pairing_ok_def)
qed

theorem status_assignment_invariant_witness:
  "pairing_inv init_state
   \<and> \<lparr>crash_id = 1, timestamp = ''2024-01-01T10:00:00'', latitude = 10.5276,
       longitude = 76.2144, snapshot_path = None, status = ''waiting_for_driver'',
       assigned_ambulance_id = Some ''Unit-01''\<rparr>
     \<in> set (crashes (run_statements init_state
          [Update_is_on_duty 1 1, Update_is_available ''Unit-01'' 1,
           Insert_crash ''2024-01-01T10:00:00'' 10.5276 76.2144,
           Update_assigned 1 ''Unit-01'',
           Update_reopened 1, Update_reopened 1, Update_assigned 1 ''Unit-01'']))"
  using status_assignment_invariant [of init_state
      "\<lparr>crash_id = 1, timestamp = ''2024-01-01T10:00:00'', latitude = 10.5276,
        longitude = 76.2144, snapshot_path = None, status = ''waiting_for_driver'',
        assigned_ambulance_id = Some ''Unit-01''\<rparr>"
      "[Update_is_on_duty 1 1, Update_is_available ''Unit-01'' 1,
           Insert_crash ''2024-01-01T10:00:00'' 10.5276 76.2144,
           Update_assigned 1 ''Unit-01'',
           Update_reopened 1, Update_reopened 1, Update_assigned 1 ''Unit-01'']" "[]"]
  by (simp add: run_statements_def init_state_def pairing_inv_def update_crashes_def
      next_rowid_def)

text \<open>The pairing as the specification words it fails in both directions, and so does
  its second sentence. After accept and arrival the incident is \<^verbatim>\<open>resolved\<close> and still
  carries its unit; an incident that found no unit and is then accepted is
  \<^verbatim>\<open>en_route\<close> with no unit; and when two declines of one incident overlap
  (\<open>interleaved_declines\<close>), the incident ends in \<^verbatim>\<open>no_unit_available\<close> with
  Unit-01 recorded.\<close>

theorem status_assignment_iff_counterexample:
  "map status (crashes (run init_state
      [Set_availability (Some 1) True,
       Simulate_crash 0 0 ''2024-01-01T10:00:00'' None ''2024-01-01T10:00:01'',
       Accept_mission (Some 1) 1, Arrived (Some 1) 1])) = [''resolved'']
   \<and> map assigned_ambulance_id (crashes (run init_state
      [Set_availability (Some 1) True,
       Simulate_crash 0 0 ''2024-01-01T10:00:00'' None ''2024-01-01T10:00:01'',
       Accept_mission (Some 1) 1, Arrived (Some 1) 1])) = [Some ''Unit-01'']
   \<and> \<not> list_all assigned_iff_active (crashes (run init_state
      [Set_availability (Some 1) True,
       Simulate_crash 0 0 ''2024-01-01T10:00:00'' None ''2024-01-01T10:00:01'',
       Accept_mission (Some 1) 1, Arrived (Some 1) 1]))
   \<and> map status (crashes (run init_state
      [Simulate_crash 0 0 ''2024-01-01T10:00:00'' None ''2024-01-01T10:00:01'',
       Accept_mission (Some 2) 1])) = [''en_route'']
   \<and> map assigned_ambulance_id (crashes (run init_state
      [Simulate_crash 0 0 ''2024-01-01T10:00:00'' None ''2024-01-01T10:00:01'',
       Accept_mission (Some 2) 1])) = [None]
   \<and> \<not> list_all assigned_iff_active (crashes (run init_state
      [Simulate_crash 0 0 ''2024-01-01T10:00:00'' None ''2024-01-01T10:00:01'',
       Accept_mission (Some 2) 1]))
   \<and> map status (crashes interleaved_declines) = [''no_unit_available'']
   \<and> map assigned_ambulance_id (crashes interleaved_declines) = [Some ''Unit-01'']
   \<and> \<not> list_all assigned_iff_active (crashes interleaved_declines)"
  by (simp add: run_simps init_state_def assigned_iff_active_def interleaved_declines_tables)


lemma update_ambulances_twice:
  "update_ambulances (\<lambda>a. a\<lparr>is_available := v\<rparr>) u
     (update_ambulances (\<lambda>a. a\<lparr>is_available := w\<rparr>) u as)
   = update_ambulances (\<lambda>a. a\<lparr>is_available := v\<rparr>) u as"
  by (simp add: update_ambulances_def)

lemma get_current_driver_accept_mission:
  "get_current_driver (fst (accept_mission s session cid)) session' = get_current_driver s session'"
  unfolding get_current_driver_def accept_mission_fields by (rule refl)

text \<open>
  C7 (as amended). For an incident in \<^verbatim>\<open>waiting_for_driver\<close>, accept by a logged-in
  driver answers 200, sets the status to \<^verbatim>\<open>en_route\<close> and sets the availability of the
  caller's unit to 0, leaving every other row of \<^verbatim>\<open>ambulances\<close> as it was. For an
  incident in \<^verbatim>\<open>en_route\<close>, arrival reported by a logged-in driver answers 200, sets
  the status to \<^verbatim>\<open>resolved\<close> and sets the availability of the caller's unit to 1,
  leaving every other row as it was: the unit set back is the one whose driver reports
  the arrival, whichever unit accepted. When the driver who accepted reports the
  arrival, the table of units is the one before the accept with that driver's unit
  available.
\<close>

theorem acknowledge_and_arrive:
  assumes "get_current_driver s session = Some d"
    and "select_crash s cid = Some c" and "status c = ''waiting_for_driver''"
    and "get_current_driver s' session' = Some d'"
    and "select_crash s' cid' = Some c'" and "status c' = ''en_route''"
  shows "snd (accept_mission s session cid) = Http200 ''en_route''
    \<and> select_crash (fst (accept_mission s session cid)) cid = Some (c\<lparr>status := ''en_route''\<rparr>)
    \<and> ambulances (fst (accept_mission s session cid))
        = update_ambulances (\<lambda>a. a\<lparr>is_available := 0\<rparr>) (unit_id d) (ambulances s)
    \<and> snd (arrived s' session' cid') = Http200 ''resolved''
    \<and> select_crash (fst (arrived s' session' cid')) cid' = Some (c'\<lparr>status := ''resolved''\<rparr>)
    \<and> ambulances (fst (arrived s' session' cid'))
        = update_ambulances (\<lambda>a. a\<lparr>is_available := 1\<rparr>) (unit_id d') (ambulances s')
    \<and> ambulances (fst (arrived (fst (accept_mission s session cid)) session cid))
        = update_ambulances (\<lambda>a. a\<lparr>is_available := 1\<rparr>) (unit_id d) (ambulances s)"
proof -
  have "ambulances (fst (arrived (fst (accept_mission s session cid)) session cid))
        = update_ambulances (\<lambda>a. a\<lparr>is_available := 1\<rparr>) (unit_id d) (ambulances s)"
    using assms(1)
    by (simp add: arrived_fields get_current_driver_accept_mission accept_mission_fields
        update_ambulances_twice)
  then show ?thesis
    using accept_mission_logged_in(1,2) [OF assms(1), of cid]
      arrived_logged_in(1,2) [OF assms(4), of cid'] assms(1,2,4,5)
    by (simp add: accept_mission_fields arrived_fields)
qed

theorem acknowledge_and_arrive_witness:
  "map_option unit_id (get_current_driver assigned_state (Some 1)) = Some ''Unit-01''
   \<and> map_option status (select_crash assigned_state 1) = Some ''waiting_for_driver''
   \<and> map_option unit_id
        (get_current_driver (fst (accept_mission assigned_state (Some 1) 1)) (Some 1))
       = Some ''Unit-01''
   \<and> map_option status (select_crash (fst (accept_mission assigned_state (Some 1) 1)) 1)
       = Some ''en_route''
   \<and> map is_available (ambulances (fst (accept_mission assigned_state (Some 1) 1)))
       = [0, 1, 1, 1, 1]
   \<and> snd (arrived (fst (accept_mission assigned_state (Some 1) 1)) (Some 1) 1)
       = Http200 ''resolved''
   \<and> map_option status
        (select_crash (fst (arrived (fst (accept_mission assigned_state (Some 1) 1)) (Some 1) 1)) 1)
       = Some ''resolved''
   \<and> map is_available
        (ambulances (fst (arrived (fst (accept_mission assigned_state (Some 1) 1)) (Some 1) 1)))
       = [1, 1, 1, 1, 1]"
proof -
  define s' where "s' = fst (accept_mission assigned_state (Some 1) 1)"
  have d1: "get_current_driver assigned_state (Some 1) = Some ((drivers init_state ! 0)\<lparr>is_on_duty := 1\<rparr>)"
    by (simp add: get_current_driver_def assigned_state_tables init_state_def)
  have d1': "get_current_driver s' (Some 1) = Some ((drivers init_state ! 0)\<lparr>is_on_duty := 1\<rparr>)"
    by (simp add: s'_def get_current_driver_accept_mission d1)
  have c1: "select_crash assigned_state 1 = Some (crashes assigned_state ! 0)"
    by (simp add: select_crash_def assigned_state_tables)
  have st1: "status (crashes assigned_state ! 0) = ''waiting_for_driver''"
    by (simp add: assigned_state_tables)
  have c1': "select_crash s' 1 = Some ((crashes assigned_state ! 0)\<lparr>status := ''en_route''\<rparr>)"
    unfolding s'_def by (simp add: accept_mission_logged_in(2) [OF d1] c1)
  have st1': "status ((crashes assigned_state ! 0)\<lparr>status := ''en_route''\<rparr>) = ''en_route''"
    by simp
  have u: "unit_id ((drivers init_state ! 0)\<lparr>is_on_duty := 1\<rparr>) = ''Unit-01''"
    by (simp add: init_state_def)
  from acknowledge_and_arrive [OF d1 c1 st1 d1' c1' st1']
  show ?thesis
    unfolding s'_def [symmetric]
    by (simp add: d1 d1' c1 c1' st1 u update_ambulances_def assigned_state_tables init_state_def)
qed

text \<open>Arrival reported by another driver than the one who accepted: Unit-01 accepts
  the incident and becomes unavailable, the driver of Unit-02 reports the arrival, the
  incident is \<^verbatim>\<open>resolved\<close> and Unit-01 is still unavailable.\<close>

theorem acknowledge_and_arrive_counterexample:
  "map_option unit_id (get_current_driver assigned_state (Some 1)) = Some ''Unit-01''
   \<and> map status (crashes assigned_state) = [''waiting_for_driver'']
   \<and> snd (accept_mission assigned_state (Some 1) 1) = Http200 ''en_route''
   \<and> map status (crashes (fst (accept_mission assigned_state (Some 1) 1))) = [''en_route'']
   \<and> map is_available (ambulances (fst (accept_mission assigned_state (Some 1) 1)))
       = [0, 1, 1, 1, 1]
   \<and> map_option unit_id
        (get_current_driver (fst (accept_mission assigned_state (Some 1) 1)) (Some 2))
       = Some ''Unit-02''
   \<and> snd (arrived (fst (accept_mission assigned_state (Some 1) 1)) (Some 2) 1)
       = Http200 ''resolved''
   \<and> map status (crashes (fst (arrived (fst (accept_mission assigned_state (Some 1) 1)) (Some 2) 1)))
       = [''resolved'']
   \<and> map is_available
        (ambulances (fst (arrived (fst (accept_mission assigned_state (Some 1) 1)) (Some 2) 1)))
       = [0, 1, 1, 1, 1]"
proof -
  define s' where "s' = fst (accept_mission assigned_state (Some 1) 1)"
  have d1: "get_current_driver assigned_state (Some 1) = Some ((drivers init_state ! 0)\<lparr>is_on_duty := 1\<rparr>)"
    by (simp add: get_current_driver_def assigned_state_tables init_state_def)
  have d2: "get_current_driver assigned_state (Some 2) = Some (drivers init_state ! 1)"
    by (simp add: get_current_driver_def assigned_state_tables init_state_def)
  have d2': "get_current_driver s' (Some 2) = Some (drivers init_state ! 1)"
    by (simp add: s'_def get_current_driver_accept_mission d2)
  have t: "crashes s' =
     [\<lparr>crash_id = 1, timestamp = ''2024-01-01T10:00:00'', latitude = 10.5276,
       longitude = 76.2144, snapshot_path = None, status = ''en_route'',
       assigned_ambulance_id = Some ''Unit-01''\<rparr>]"
    "ambulances s' = (ambulances init_state)[0 := (ambulances init_state ! 0)\<lparr>is_available := 0\<rparr>]"
    by (simp_all add: s'_def accept_mission_fields d1 update_crashes_def update_ambulances_def
        assigned_state_tables init_state_def)
  show ?thesis
    unfolding s'_def [symmetric]
    by (simp add: d1 d2' t arrived_fields arrived_logged_in(1) [OF d2'] s'_def [symmetric]
        accept_mission_logged_in(1) [OF d1] update_crashes_def update_ambulances_def
        assigned_state_tables init_state_def)
qed

text \<open>
  C3 (as amended). No route looks at the current status of the incident, and there is
  no InvalidTransition error: for a logged-in driver and an existing incident in any
  status, accept answers 200 and sets the status to \<^verbatim>\<open>en_route\<close>, arrival answers 200
  and sets the status to \<^verbatim>\<open>resolved\<close>, and decline answers 200.
\<close>

theorem transitions_not_checked:
  assumes "get_current_driver s session = Some d" and "select_crash s cid = Some c"
  shows "snd (accept_mission s session cid) = Http200 ''en_route''
    \<and> select_crash (fst (accept_mission s session cid)) cid = Some (c\<lparr>status := ''en_route''\<rparr>)
    \<and> snd (arrived s session cid) = Http200 ''resolved''
    \<and> select_crash (fst (arrived s session cid)) cid = Some (c\<lparr>status := ''resolved''\<rparr>)
    \<and> (\<exists>r. snd (decline_mission s session cid now) = Returned (Http200 r))"
  using accept_mission_logged_in(1,2) [OF assms(1), of cid] arrived_logged_in(1,2) [OF assms(1), of cid]
    assms(2) decline_mission_logged_in [OF assms(1), of cid now]
  by simp

theorem transitions_not_checked_witness:
  "map_option unit_id (get_current_driver resolved_state (Some 1)) = Some ''Unit-01''
   \<and> map_option status (select_crash resolved_state 1) = Some ''resolved''
   \<and> snd (arrived resolved_state (Some 1) 1) = Http200 ''resolved''
   \<and> (\<exists>r. snd (decline_mission resolved_state (Some 1) 1 ''2024-01-01T12:00:00'')
          = Returned (Http200 r))"
proof -
  have d1: "get_current_driver resolved_state (Some 1) = Some ((drivers init_state ! 0)\<lparr>is_on_duty := 1\<rparr>)"
    by (simp add: get_current_driver_def resolved_state_tables assigned_state_tables init_state_def)
  have c1: "select_crash resolved_state 1 = Some (crashes resolved_state ! 0)"
    by (simp add: select_crash_def resolved_state_tables)
  from transitions_not_checked [OF d1 c1, of "''2024-01-01T12:00:00''"]
  show ?thesis
    by (simp add: d1 c1 resolved_state_tables init_state_def)
qed

text \<open>Accepting an incident that is already resolved succeeds: the answer is 200, the
  status goes back to \<^verbatim>\<open>en_route\<close> and the unit is marked unavailable.\<close>

theorem invalid_transition_counterexample:
  "map status (crashes resolved_state) = [''resolved'']
   \<and> map is_available (ambulances resolved_state) = [1, 1, 1, 1, 1]
   \<and> snd (accept_mission resolved_state (Some 1) 1) = Http200 ''en_route''
   \<and> map status (crashes (fst (accept_mission resolved_state (Some 1) 1))) = [''en_route'']
   \<and> map is_available (ambulances (fst (accept_mission resolved_state (Some 1) 1)))
       = [0, 1, 1, 1, 1]"
  by (simp add: accept_mission_def Let_def get_current_driver_def update_crashes_def
      update_ambulances_def resolved_state_tables assigned_state_tables init_state_def)

text \<open>
  C4 (as amended). Accept, decline and arrival refuse a caller only when no driver is
  logged in: the answer is then 401 and the state is unchanged. The caller's unit is
  not compared with the incident's assigned unit: a logged-in driver of another unit
  is answered 200, accept sets the status to \<^verbatim>\<open>en_route\<close> and marks the caller's own
  unit unavailable, arrival sets the status to \<^verbatim>\<open>resolved\<close> and marks the caller's own
  unit available, and decline answers 200.
\<close>

theorem authorisation_is_login_only:
  assumes "get_current_driver s anonymous = None"
    and "get_current_driver s session = Some d"
    and "select_crash s cid = Some c" and "assigned_ambulance_id c \<noteq> Some (unit_id d)"
  shows "accept_mission s anonymous cid = (s, Http401)
    \<and> decline_mission s anonymous cid now = (s, Returned Http401)
    \<and> arrived s anonymous cid = (s, Http401)
    \<and> snd (accept_mission s session cid) = Http200 ''en_route''
    \<and> select_crash (fst (accept_mission s session cid)) cid = Some (c\<lparr>status := ''en_route''\<rparr>)
    \<and> select_ambulance (fst (accept_mission s session cid)) (unit_id d)
        = map_option (\<lambda>a. a\<lparr>is_available := 0\<rparr>) (select_ambulance s (unit_id d))
    \<and> snd (arrived s session cid) = Http200 ''resolved''
    \<and> select_crash (fst (arrived s session cid)) cid = Some (c\<lparr>status := ''resolved''\<rparr>)
    \<and> select_ambulance (fst (arrived s session cid)) (unit_id d)
        = map_option (\<lambda>a. a\<lparr>is_available := 1\<rparr>) (select_ambulance s (unit_id d))
    \<and> (\<exists>r. snd (decline_mission s session cid now) = Returned (Http200 r))"
  using accept_mission_logged_in [OF assms(2), of cid] arrived_logged_in [OF assms(2), of cid]
    assms(3) decline_mission_logged_in [OF assms(2), of cid now]
  by (simp add: not_logged_in [OF assms(1)])

theorem authorisation_is_login_only_witness:
  "get_current_driver assigned_state None = None
   \<and> map_option unit_id (get_current_driver assigned_state (Some 2)) = Some ''Unit-02''
   \<and> map_option assigned_ambulance_id (select_crash assigned_state 1) = Some (Some ''Unit-01'')
   \<and> accept_mission assigned_state None 1 = (assigned_state, Http401)
   \<and> snd (accept_mission assigned_state (Some 2) 1) = Http200 ''en_route''"
proof -
  have d0: "get_current_driver assigned_state None = None"
    by (simp add: get_current_driver_def)
  have d2: "get_current_driver assigned_state (Some 2) = Some (drivers init_state ! 1)"
    by (simp add: get_current_driver_def assigned_state_tables init_state_def)
  have c1: "select_crash assigned_state 1 = Some (crashes assigned_state ! 0)"
    by (simp add: select_crash_def assigned_state_tables)
  have ne: "assigned_ambulance_id (crashes assigned_state ! 0) \<noteq> Some (unit_id (drivers init_state ! 1))"
    by (simp add: assigned_state_tables init_state_def)
  from authorisation_is_login_only [OF d0 d2 c1 ne, of "''2024-01-01T12:00:00''"]
  show ?thesis
    by (simp add: d0 d2 c1 assigned_state_tables init_state_def)
qed

text \<open>The driver of Unit-02 accepts the incident assigned to Unit-01: the answer is 200,
  the incident is \<^verbatim>\<open>en_route\<close> and Unit-02 is marked unavailable.\<close>

theorem unauthorized_counterexample:
  "map assigned_ambulance_id (crashes assigned_state) = [Some ''Unit-01'']
   \<and> map_option unit_id (get_current_driver assigned_state (Some 2)) = Some ''Unit-02''
   \<and> snd (accept_mission assigned_state (Some 2) 1) = Http200 ''en_route''
   \<and> map status (crashes (fst (accept_mission assigned_state (Some 2) 1))) = [''en_route'']
   \<and> map is_available (ambulances (fst (accept_mission assigned_state (Some 2) 1)))
       = [1, 0, 1, 1, 1]"
  by (simp add: accept_mission_def Let_def get_current_driver_def update_crashes_def
      update_ambulances_def assigned_state_tables init_state_def)

subsection \<open>The registry\<close>

lemma map_of_setdefault_append:
  "map_of (setdefault_append r u q) =
     (map_of r)(u \<mapsto> (case map_of r u of None \<Rightarrow> [] | Some qs \<Rightarrow> qs) @ [q])"
  by (induction r u q rule: setdefault_append.induct) (auto simp: fun_eq_iff)

lemma keys_setdefault_append:
  "map fst (setdefault_append r u q) = (if u \<in> set (map fst r) then map fst r else map fst r @ [u])"
  by (induction r u q rule: setdefault_append.induct) auto

lemma set_setdefault_append:
  "set (concat (map snd (setdefault_append r u q))) = insert q (set (concat (map snd r)))"
  by (induction r u q rule: setdefault_append.induct) auto

lemma distinct_setdefault_append:
  "distinct (concat (map snd r)) \<Longrightarrow> q \<notin> set (concat (map snd r)) \<Longrightarrow>
   distinct (concat (map snd (setdefault_append r u q)))"
proof (induction r u q rule: setdefault_append.induct)
  case (1 u q)
  then show ?case by simp
next
  case (2 k qs r u q)
  show ?case
  proof (cases "k = u")
    case True
    with "2.prems" show ?thesis by auto
  next
    case False
    from "2.prems" have d: "distinct (concat (map snd r))" and n: "q \<notin> set (concat (map snd r))"
      and dq: "distinct qs" and nq: "q \<notin> set qs"
      and dis: "set qs \<inter> set (concat (map snd r)) = {}"
      by auto
    have ih: "distinct (concat (map snd (setdefault_append r u q)))"
      using False d n by (rule "2.IH")
    have "set qs \<inter> set (concat (map snd (setdefault_append r u q))) = {}"
      unfolding set_setdefault_append using dis nq by auto
    with ih dq False show ?thesis by (simp del: set_concat)
  qed
qed

lemma map_of_cleanup:
  "map_of (map (\<lambda>(k, qs). if k = u then (k, remove1 q qs) else (k, qs)) r) u' =
     (if u' = u then map_option (remove1 q) (map_of r u) else map_of r u')"
  by (induction r) auto

lemma subscriptions_sse_stream:
  "subscriptions (fst (sse_stream s session)) u' =
     (case get_current_driver s session of
        None \<Rightarrow> subscriptions s u'
      | Some d \<Rightarrow>
          if u' = unit_id d then subscriptions s u' @ [length (queues s)]
          else subscriptions s u')"
  by (simp add: sse_stream_def subscriptions_def Let_def map_of_setdefault_append
      split: option.splits)

lemma subscriptions_cleanup:
  "subscriptions (cleanup s u q) u' =
     (if u' = u then remove1 q (subscriptions s u') else subscriptions s u')"
  by (simp add: cleanup_def subscriptions_def map_of_cleanup split: option.splits)

lemma step_subscribers:
  "subscribers (step s r) =
     (case r of Sse_stream session \<Rightarrow> subscribers (fst (sse_stream s session))
      | _ \<Rightarrow> subscribers s)"
  by (cases r)
     (simp_all add: simulate_crash_fields accept_mission_fields decline_mission_fields
        arrived_fields set_availability_fields logout_fields generate_next_fields)

lemma fanout_inv_cong:
  "subscribers s' = subscribers s \<Longrightarrow> length (queues s') = length (queues s) \<Longrightarrow>
   fanout_inv s \<Longrightarrow> fanout_inv s'"
  by (simp add: fanout_inv_def)

lemma sse_stream_fanout_inv:
  assumes "fanout_inv s"
  shows "fanout_inv (fst (sse_stream s session))"
proof (cases "get_current_driver s session")
  case None
  with assms show ?thesis by (simp add: sse_stream_def)
next
  case (Some d)
  have fresh: "length (queues s) \<notin> set (concat (map snd (subscribers s)))"
    using assms by (auto simp: fanout_inv_def)
  have 1: "distinct (map fst (setdefault_append (subscribers s) (unit_id d) (length (queues s))))"
    using assms by (simp add: keys_setdefault_append fanout_inv_def)
  have 2: "distinct (concat (map snd (setdefault_append (subscribers s) (unit_id d) (length (queues s)))))"
    using assms fresh by (simp add: distinct_setdefault_append fanout_inv_def)
  have 3: "\<forall>q\<in>set (concat (map snd (setdefault_append (subscribers s) (unit_id d) (length (queues s))))).
             q < Suc (length (queues s))"
    using assms unfolding set_setdefault_append by (auto simp: fanout_inv_def less_Suc_eq)
  show ?thesis
    unfolding fanout_inv_def using 1 2 3 Some
    by (simp add: sse_stream_def Let_def)
qed

lemma step_fanout_inv: "fanout_inv s \<Longrightarrow> fanout_inv (step s r)"
proof (cases r)
  case (Sse_stream session)
  assume "fanout_inv s"
  then show ?thesis using Sse_stream by (simp add: sse_stream_fanout_inv)
qed (erule fanout_inv_cong [rotated 2];
     simp add: simulate_crash_fields accept_mission_fields decline_mission_fields
       arrived_fields set_availability_fields logout_fields generate_next_fields)+

lemma run_fanout_inv: "fanout_inv s \<Longrightarrow> fanout_inv (run s rs)"
  unfolding run_def by (induction rs arbitrary: s) (simp_all add: step_fanout_inv)

lemma init_state_fanout_inv: "fanout_inv init_state"
  by (simp add: fanout_inv_def init_state_def)

text \<open>The same for single statements, so also when requests overlap.\<close>

lemma execute_fanout_inv:
  assumes "fanout_inv s"
  shows "fanout_inv (execute s st)"
proof (cases st)
  case (Append_queue u)
  have fresh: "length (queues s) \<notin> set (concat (map snd (subscribers s)))"
    using assms by (auto simp: fanout_inv_def)
  have 1: "distinct (map fst (setdefault_append (subscribers s) u (length (queues s))))"
    using assms by (simp add: keys_setdefault_append fanout_inv_def)
  have 2: "distinct (concat (map snd (setdefault_append (subscribers s) u (length (queues s)))))"
    using assms fresh by (simp add: distinct_setdefault_append fanout_inv_def)
  have 3: "\<forall>q\<in>set (concat (map snd (setdefault_append (subscribers s) u (length (queues s))))).
             q < Suc (length (queues s))"
    using assms unfolding set_setdefault_append by (auto simp: fanout_inv_def less_Suc_eq)
  show ?thesis
    unfolding fanout_inv_def using 1 2 3 Append_queue by simp
qed (use assms in \<open>simp_all add: fanout_inv_def generate_next_fields\<close>)

lemma run_statements_fanout_inv: "fanout_inv s \<Longrightarrow> fanout_inv (run_statements s stmts)"
  unfolding run_statements_def
  by (induction stmts arbitrary: s) (simp_all add: execute_fanout_inv)

subsection \<open>Streams and broadcasts in a run\<close>

lemma run_append: "run s (rs @ rs') = run (run s rs) rs'"
  by (simp add: run_def)

lemma run_Cons: "run s (r # rs) = run (step s r) rs"
  by (simp add: run_def)

lemma set_availability_queues:
  "queues (fst (set_availability s session flag)) =
     (case get_current_driver s session of
        None \<Rightarrow> queues s
      | Some d \<Rightarrow>
          deliver (queues s)
            (''availability_update'',
             Availability_update (unit_id d) (driver_name d) (if flag then 1 else 0))
            (concat (map snd (subscribers s))))"
  by (simp add: set_availability_def push_all_def Let_def split: option.splits)

lemma sse_stream_registry:
  "subscribers (fst (sse_stream s session)) =
     (case get_current_driver s session of
        None \<Rightarrow> subscribers s
      | Some d \<Rightarrow> setdefault_append (subscribers s) (unit_id d) (length (queues s)))"
  "queues (fst (sse_stream s session)) =
     (case get_current_driver s session of
        None \<Rightarrow> queues s
      | Some d \<Rightarrow> queues s @ [\<lparr>maxsize = 30, items = []\<rparr>])"
  by (simp_all add: sse_stream_def Let_def split: option.splits)

text \<open>Driver 3 stays off duty: each such request changes no driver row and offers one
  message to every registered queue.\<close>

lemma off_duty_broadcast:
  assumes "drivers s = drivers init_state"
  shows "drivers (step s (Set_availability (Some 3) False)) = drivers init_state"
    and "subscribers (step s (Set_availability (Some 3) False)) = subscribers s"
    and "queues (step s (Set_availability (Some 3) False)) =
           deliver (queues s)
             (''availability_update'', Availability_update ''Unit-03'' ''Rahul Krishnan'' 0)
             (concat (map snd (subscribers s)))"
  using assms
  by (simp_all add: set_availability_tables set_availability_fields set_availability_queues
      get_current_driver_def update_drivers_def init_state_def)

lemma off_duty_broadcasts:
  assumes "drivers s = drivers init_state"
    and "subscribers s = [(u, [0])]"
    and "queues s = [\<lparr>maxsize = 30, items = xs\<rparr>]"
    and "length xs + n \<le> 30"
  shows "drivers (run s (replicate n (Set_availability (Some 3) False))) = drivers init_state
     \<and> subscribers (run s (replicate n (Set_availability (Some 3) False))) = [(u, [0])]
     \<and> queues (run s (replicate n (Set_availability (Some 3) False))) =
         [\<lparr>maxsize = 30,
           items = xs @ replicate n
             (''availability_update'', Availability_update ''Unit-03'' ''Rahul Krishnan'' 0)\<rparr>]"
  using assms
proof (induction n arbitrary: s xs)
  case 0
  then show ?case by (simp add: run_def)
next
  case (Suc n)
  let ?m = "(''availability_update'', Availability_update ''Unit-03'' ''Rahul Krishnan'' 0)"
  let ?s = "step s (Set_availability (Some 3) False)"
  have d: "drivers ?s = drivers init_state"
    using Suc.prems(1) by (rule off_duty_broadcast)
  have r: "subscribers ?s = [(u, [0])]"
    using off_duty_broadcast(2) [OF Suc.prems(1)] Suc.prems(2) by simp
  have q: "queues ?s = [\<lparr>maxsize = 30, items = xs @ [?m]\<rparr>]"
    using off_duty_broadcast(3) [OF Suc.prems(1)] Suc.prems(2,3,4)
    by (simp add: put_nowait_def)
  have l: "length (xs @ [?m]) + n \<le> 30"
    using Suc.prems(4) by simp
  from Suc.IH [OF d r q l] show ?case
    by (simp add: run_Cons replicate_app_Cons_same)
qed

lemma saturated_state_tables:
  "subscribers saturated_state = [(''Unit-01'', [0, 1]), (''Unit-02'', [2])]"
  "queues saturated_state =
     [\<lparr>maxsize = 30,
       items = replicate 30 (''availability_update'',
                 Availability_update ''Unit-03'' ''Rahul Krishnan'' 0)\<rparr>,
      \<lparr>maxsize = 30,
       items = [(''availability_update'',
                 Availability_update ''Unit-03'' ''Rahul Krishnan'' 0)]\<rparr>,
      \<lparr>maxsize = 30, items = []\<rparr>]"
  "drivers saturated_state = drivers init_state"
proof -
  define s1 where "s1 = step init_state (Sse_stream (Some 1))"
  define s2 where "s2 = run s1 (replicate 30 (Set_availability (Some 3) False))"
  have s1: "drivers s1 = drivers init_state" "subscribers s1 = [(''Unit-01'', [0])]"
    "queues s1 = [\<lparr>maxsize = 30, items = []\<rparr>]"
    by (simp_all add: s1_def sse_stream_fields sse_stream_registry get_current_driver_def
        init_state_def)
  have "length ([] :: msg list) + 30 \<le> 30" by simp
  from off_duty_broadcasts [OF s1 this]
  have s2: "drivers s2 = drivers init_state" "subscribers s2 = [(''Unit-01'', [0])]"
    "queues s2 = [\<lparr>maxsize = 30,
       items = replicate 30 (''availability_update'',
                 Availability_update ''Unit-03'' ''Rahul Krishnan'' 0)\<rparr>]"
    by (simp_all add: s2_def)
  have sat: "saturated_state =
      run s2 [Sse_stream (Some 1), Set_availability (Some 3) False, Sse_stream (Some 2)]"
    by (simp add: saturated_state_def run_Cons run_append s1_def s2_def)
  show "subscribers saturated_state = [(''Unit-01'', [0, 1]), (''Unit-02'', [2])]"
    by (simp add: sat run_def sse_stream_registry set_availability_fields sse_stream_fields
        set_availability_tables get_current_driver_def update_drivers_def s2 init_state_def)
  show "queues saturated_state =
     [\<lparr>maxsize = 30,
       items = replicate 30 (''availability_update'',
                 Availability_update ''Unit-03'' ''Rahul Krishnan'' 0)\<rparr>,
      \<lparr>maxsize = 30,
       items = [(''availability_update'',
                 Availability_update ''Unit-03'' ''Rahul Krishnan'' 0)]\<rparr>,
      \<lparr>maxsize = 30, items = []\<rparr>]"
    by (simp add: sat run_def sse_stream_registry set_availability_fields sse_stream_fields
        set_availability_tables set_availability_queues get_current_driver_def update_drivers_def
        put_nowait_def s2 init_state_def)
  show "drivers saturated_state = drivers init_state"
    by (simp add: sat run_def sse_stream_fields set_availability_tables get_current_driver_def
        update_drivers_def s2 init_state_def)
qed

subsection \<open>Delivery\<close>

lemma push_all_distinct: "fanout_inv s \<Longrightarrow> distinct (concat (map snd (subscribers s)))"
  by (simp add: fanout_inv_def)

lemma generate_next_oldest:
  assumes "q < length (queues s)" and "items (queues s ! q) = m # ms"
  shows "snd (generate_next s q) = Message m"
    and "items (queues (fst (generate_next s q)) ! q) = ms"
  using assms by (simp_all add: generate_next_def q_get_def)

text \<open>
  C8. In every state where no queue is registered twice (every state reached from one
  with no subscriber), \<^verbatim>\<open>push_event\<close> to a unit returns a state in which each queue
  registered for that unit has the message appended behind its earlier messages if it
  had room, and is unchanged if it was full; every other queue is unchanged, and what
  happens to a queue depends on that queue's buffer alone. \<^verbatim>\<open>push_all\<close> does the
  same for the queues of all units. \<^verbatim>\<open>push_event\<close> and \<^verbatim>\<open>push_all\<close> are total: they
  return a state and raise nothing. A reader takes the oldest message first.
\<close>

theorem push_event_delivery:
  assumes "fanout_inv s" and "q < length (queues s)"
  shows "length (queues (push_event s u event_type data)) = length (queues s)
     \<and> queues (push_event s u event_type data) ! q =
          (if q \<in> set (subscriptions s u)
              \<and> \<not> (0 < maxsize (queues s ! q)
                     \<and> maxsize (queues s ! q) \<le> int (length (items (queues s ! q))))
           then (queues s ! q)\<lparr>items := items (queues s ! q) @ [(event_type, data)]\<rparr>
           else queues s ! q)
     \<and> length (queues (push_all s event_type data)) = length (queues s)
     \<and> queues (push_all s event_type data) ! q =
          (if q \<in> set (concat (map snd (subscribers s)))
              \<and> \<not> (0 < maxsize (queues s ! q)
                     \<and> maxsize (queues s ! q) \<le> int (length (items (queues s ! q))))
           then (queues s ! q)\<lparr>items := items (queues s ! q) @ [(event_type, data)]\<rparr>
           else queues s ! q)
     \<and> (case items (queues s ! q) of
          [] \<Rightarrow> generate_next s q = (s, Heartbeat)
        | m # ms \<Rightarrow> snd (generate_next s q) = Message m
            \<and> items (queues (fst (generate_next s q)) ! q) = ms)"
proof -
  have e: "queues (push_event s u event_type data) ! q =
          (if q \<in> set (subscriptions s u)
              \<and> \<not> (0 < maxsize (queues s ! q)
                     \<and> maxsize (queues s ! q) \<le> int (length (items (queues s ! q))))
           then (queues s ! q)\<lparr>items := items (queues s ! q) @ [(event_type, data)]\<rparr>
           else queues s ! q)"
  proof (cases "q \<in> set (subscriptions s u)")
    case True
    then show ?thesis
      using deliver_member [OF subscriptions_distinct [OF assms(1)] True assms(2)]
      by (simp add: push_event_def put_nowait_def)
  next
    case False
    then show ?thesis
      by (simp add: push_event_def deliver_other)
  qed
  have a: "queues (push_all s event_type data) ! q =
          (if q \<in> set (concat (map snd (subscribers s)))
              \<and> \<not> (0 < maxsize (queues s ! q)
                     \<and> maxsize (queues s ! q) \<le> int (length (items (queues s ! q))))
           then (queues s ! q)\<lparr>items := items (queues s ! q) @ [(event_type, data)]\<rparr>
           else queues s ! q)"
  proof (cases "q \<in> set (concat (map snd (subscribers s)))")
    case True
    then show ?thesis
      using deliver_member [OF push_all_distinct [OF assms(1)] True assms(2)]
      by (simp add: push_all_def put_nowait_def del: set_concat)
  next
    case False
    then show ?thesis
      by (simp add: push_all_def deliver_other del: set_concat)
  qed
  have g: "(case items (queues s ! q) of
          [] \<Rightarrow> generate_next s q = (s, Heartbeat)
        | m # ms \<Rightarrow> snd (generate_next s q) = Message m
            \<and> items (queues (fst (generate_next s q)) ! q) = ms)"
    using assms(2) by (simp add: generate_next_def q_get_def split: list.splits)
  show ?thesis using e a g by simp
qed

theorem push_event_delivery_witness:
  "fanout_inv saturated_state
   \<and> map (\<lambda>b. length (items b)) (queues saturated_state) = [30, 1, 0]
   \<and> map (\<lambda>b. length (items b))
        (queues (push_event saturated_state ''Unit-01'' ''mission_assigned''
           (Mission_assigned 1 ''Unit-01'' 10.5276 76.2144 0
              (Near ''Thrissur Medical College, Thrissur, Kerala'') ''2024-01-01T10:00:01'')))
       = [30, 2, 0]
   \<and> items (queues (push_event saturated_state ''Unit-01'' ''mission_assigned''
           (Mission_assigned 1 ''Unit-01'' 10.5276 76.2144 0
              (Near ''Thrissur Medical College, Thrissur, Kerala'') ''2024-01-01T10:00:01'')) ! 1)
       = [(''availability_update'', Availability_update ''Unit-03'' ''Rahul Krishnan'' 0),
          (''mission_assigned'',
           Mission_assigned 1 ''Unit-01'' 10.5276 76.2144 0
              (Near ''Thrissur Medical College, Thrissur, Kerala'') ''2024-01-01T10:00:01'')]"
proof -
  have inv: "fanout_inv saturated_state"
    by (simp add: fanout_inv_def saturated_state_tables)
  have len: "1 < length (queues saturated_state)"
    by (simp add: saturated_state_tables)
  from push_event_delivery [OF inv len, of "''Unit-01''" "''mission_assigned''"
      "Mission_assigned 1 ''Unit-01'' 10.5276 76.2144 0
         (Near ''Thrissur Medical College, Thrissur, Kerala'') ''2024-01-01T10:00:01''"]
  show ?thesis
    using inv
    by (simp add: saturated_state_tables push_event_def subscriptions_def put_nowait_def)
qed

text \<open>
  C10. Publishing does not touch the registry: the registry after \<^verbatim>\<open>push_event\<close> or
  \<^verbatim>\<open>push_all\<close> is the registry before it. Of the routes, only \<^verbatim>\<open>sse_stream\<close> changes
  the registry, and for a logged-in driver it appends exactly the new queue to the list
  of that driver's unit; \<^verbatim>\<open>cleanup\<close> removes one occurrence of its queue from the list
  of its unit and nothing else.
\<close>

theorem publishing_preserves_registry:
  "subscribers (push_event s u event_type data) = subscribers s
   \<and> subscribers (push_all s event_type data) = subscribers s
   \<and> subscribers (step s r) =
       (case r of Sse_stream session \<Rightarrow> subscribers (fst (sse_stream s session))
        | _ \<Rightarrow> subscribers s)
   \<and> subscriptions (fst (sse_stream s session)) u' =
       (case get_current_driver s session of
          None \<Rightarrow> subscriptions s u'
        | Some d \<Rightarrow>
            if u' = unit_id d then subscriptions s u' @ [length (queues s)]
            else subscriptions s u')
   \<and> subscriptions (cleanup s u q) u' =
       (if u' = u then remove1 q (subscriptions s u') else subscriptions s u')"
  using step_subscribers [of s r] subscriptions_sse_stream [of s session u']
    subscriptions_cleanup [of s u q u']
  by simp

theorem publishing_preserves_registry_witness:
  "subscribers (push_all saturated_state ''status_update'' (Status_update 1 ''resolved'' None))
     = [(''Unit-01'', [0, 1]), (''Unit-02'', [2])]
   \<and> subscriptions (fst (sse_stream saturated_state (Some 2))) ''Unit-02'' = [2, 3]
   \<and> subscriptions (cleanup saturated_state ''Unit-01'' 0) ''Unit-01'' = [1]"
proof -
  have u1: "subscriptions saturated_state ''Unit-01'' = [0, 1]"
    and u2: "subscriptions saturated_state ''Unit-02'' = [2]"
    by (simp_all add: subscriptions_def saturated_state_tables)
  obtain d where d2: "get_current_driver saturated_state (Some 2) = Some d"
    and n: "unit_id d = ''Unit-02''"
    by (simp add: get_current_driver_def saturated_state_tables init_state_def)
  from publishing_preserves_registry [of saturated_state "''Unit-02''" "''status_update''"
      "Status_update 1 ''resolved'' None" "Sse_stream (Some 2)" "Some 2" "''Unit-02''" 0]
  have a: "subscribers (push_all saturated_state ''status_update'' (Status_update 1 ''resolved'' None))
      = [(''Unit-01'', [0, 1]), (''Unit-02'', [2])]"
    and b: "subscriptions (fst (sse_stream saturated_state (Some 2))) ''Unit-02'' = [2, 3]"
    by (simp_all add: saturated_state_tables d2 n u2)
  from publishing_preserves_registry [of saturated_state "''Unit-01''" "''status_update''"
      "Status_update 1 ''resolved'' None" "Sse_stream (Some 2)" "Some 2" "''Unit-01''" 0]
  have c: "subscriptions (cleanup saturated_state ''Unit-01'' 0) ''Unit-01'' = [1]"
    by (simp add: u1)
  from a b c show ?thesis by simp
qed

end
